theory Spec2Isabelle
  imports Main "HOL-Library.AList"
begin

section \<open>Strings\<close>

text \<open>
  A Python \<open>str\<close> is a sequence of Unicode code points, the integers from 0 to
  1114111. The color validator, the
  regular expressions and the key helper \<open>_camel\<close> are modelled on sequences of code
  points, \<open>ustr\<close>. The fields of a Token and the columns of the store are modelled as
  \<open>string\<close>, text whose code points are below 256; \<open>cp\<close> reads the code point of such a
  character and \<open>uni\<close> turns such a text into its code points.
\<close>

type_synonym ustr = "int list"

definition cp :: "char \<Rightarrow> nat" where
  "cp c = of_char c"

definition uni :: "string \<Rightarrow> ustr" where
  "uni s = map of_char s"

definition quote :: string where
  "quote = [char_of (39::nat)]"

definition newline :: int where
  "newline = 10"

text \<open>
  \<open>str.isspace\<close> for one code point, which \<open>str.strip\<close> uses: TAB, LF, VT, FF, CR, the
  four separators 28 to 31, the blank, NEL (133), the no-break space (160), the ogham
  space mark (5760), the spaces 8192 to 8202, the line and paragraph separators (8232,
  8233), the narrow no-break space (8239), the medium mathematical space (8287) and the
  ideographic space (12288).
\<close>

definition is_space :: "int \<Rightarrow> bool" where
  "is_space n =
     ((9 \<le> n \<and> n \<le> 13) \<or> (28 \<le> n \<and> n \<le> 32) \<or> n = 133 \<or> n = 160 \<or> n = 5760 \<or>
      (8192 \<le> n \<and> n \<le> 8202) \<or> n = 8232 \<or> n = 8233 \<or> n = 8239 \<or> n = 8287 \<or> n = 12288)"

definition strip :: "ustr \<Rightarrow> ustr" where
  "strip s = rev (dropWhile is_space (rev (dropWhile is_space s)))"

definition is_ascii_upper :: "int \<Rightarrow> bool" where
  "is_ascii_upper c = (65 \<le> c \<and> c \<le> 90)"

definition is_ascii_lower :: "int \<Rightarrow> bool" where
  "is_ascii_lower c = (97 \<le> c \<and> c \<le> 122)"

definition is_ascii_letter :: "int \<Rightarrow> bool" where
  "is_ascii_letter c = (is_ascii_upper c \<or> is_ascii_lower c)"

text \<open>The upper-case and the lower-case partner of an ASCII letter; other code points are returned as they are.\<close>

definition upper_ascii :: "int \<Rightarrow> int" where
  "upper_ascii c = (if is_ascii_lower c then c - 32 else c)"

definition lower_ascii :: "int \<Rightarrow> int" where
  "lower_ascii c = (if is_ascii_upper c then c + 32 else c)"

text \<open>
  \<open>str.lower\<close> on a text of code points below 256, character by character: the ASCII
  capitals and the Latin-1 capitals 192 to 222 (without the multiplication sign 215)
  move up by 32.
\<close>

definition lower_char :: "char \<Rightarrow> char" where
  "lower_char c = (let n = cp c in
     if (65 \<le> n \<and> n \<le> 90) \<or> (192 \<le> n \<and> n \<le> 222 \<and> n \<noteq> 215)
     then char_of (n + 32) else c)"

definition lower :: "string \<Rightarrow> string" where
  "lower s = map lower_char s"

definition startswith :: "'a list \<Rightarrow> 'a list \<Rightarrow> bool" where
  "startswith s p = (take (length p) s = p)"

text \<open>\<open>sep.join(xs)\<close>.\<close>

fun join :: "string \<Rightarrow> string list \<Rightarrow> string" where
  "join sep [] = []"
| "join sep [x] = x"
| "join sep (x # y # ys) = x @ sep @ join sep (y # ys)"

text \<open>\<open>sub in s\<close> for strings: \<open>sub\<close> occurs somewhere in \<open>s\<close>.\<close>

fun contains :: "string \<Rightarrow> string \<Rightarrow> bool" where
  "contains sub [] = (sub = [])"
| "contains sub (c # cs) = (startswith (c # cs) sub \<or> contains sub cs)"

section \<open>Regular expressions as \<open>re.match\<close> uses them\<close>

text \<open>
  The patterns of the program are built from literals, character classes, sequence,
  alternation, a starred class, bounded repetition, an optional group and \<open>$\<close>. A class
  is a list of ranges of code points and of categories such as \<open>\d\<close>.
  \<open>rests ic r s\<close> lists what is left of \<open>s\<close> after each way of matching \<open>r\<close> at its
  start; \<open>ic\<close> is \<open>re.IGNORECASE\<close>. \<open>re.match\<close> succeeds when there is at least one
  way. The leading \<open>^\<close> of every pattern is implied by \<open>re.match\<close>, which only
  matches at the start. Without \<open>re.MULTILINE\<close>, \<open>$\<close> matches at the end of the
  string and just before a newline that ends the string.
\<close>

datatype cls_item = Rng int int | Cat "int \<Rightarrow> bool"

datatype rx =
    Lit ustr
  | Cls "cls_item list"
  | Seq rx rx
  | Alt rx rx
  | Many "cls_item list"
  | Rep nat rx
  | Opt rx
  | Dollar

text \<open>
  Matching under \<open>re.IGNORECASE\<close>, as the \<open>re\<close> module of the standard library does it
  for a \<open>str\<close> pattern whose cased characters are ASCII letters, which is the case for
  every pattern here. The module lower-cases the character of the subject with the simple
  lower-case mapping of the Unicode database and compares it with the lower-cased
  character of the pattern and with the entries of its table of equivalent lower-case
  characters.

  \<open>sre_lower\<close> is that mapping wherever the result is an ASCII letter: the ASCII capitals,
  the capital I with dot above (304) and the Kelvin sign (8490). Every other code point
  has a lower case outside ASCII or none, and is returned as it is.
  \<open>ignorecase_fixes\<close> are the entries of the table of equivalents for ASCII letters: the
  dotless i (305) for \<open>i\<close> and the long s (383) for \<open>s\<close>.
\<close>

definition sre_lower :: "int \<Rightarrow> int" where
  "sre_lower c =
     (if is_ascii_upper c then c + 32
      else if c = 304 then 105
      else if c = 8490 then 107
      else c)"

definition ignorecase_fixes :: "int \<Rightarrow> int list" where
  "ignorecase_fixes lo = (if lo = 105 then [305] else if lo = 115 then [383] else [])"

text \<open>A literal character \<open>l\<close> of the pattern against the character \<open>c\<close> of the subject.\<close>

definition chr_ok :: "bool \<Rightarrow> int \<Rightarrow> int \<Rightarrow> bool" where
  "chr_ok ic l c =
     (if ic \<and> is_ascii_letter l
      then sre_lower c \<in> set (sre_lower l # ignorecase_fixes (sre_lower l))
      else c = l)"

text \<open>
  A class against the character \<open>c\<close> of the subject. Under \<open>re.IGNORECASE\<close> the module
  replaces each range by the lower case of its members and their equivalents and looks
  the lower-cased character of the subject up in that set.
\<close>

definition item_ok :: "bool \<Rightarrow> int \<Rightarrow> cls_item \<Rightarrow> bool" where
  "item_ok ic x it =
     (case it of
        Cat p \<Rightarrow> p x
      | Rng a b \<Rightarrow>
          if ic then list_ex (\<lambda>m. sre_lower m = x \<or> x \<in> set (ignorecase_fixes (sre_lower m)))
                       [a..b]
          else a \<le> x \<and> x \<le> b)"

definition cls_ok :: "bool \<Rightarrow> cls_item list \<Rightarrow> int \<Rightarrow> bool" where
  "cls_ok ic items c = list_ex (item_ok ic (if ic then sre_lower c else c)) items"

fun lit_rest :: "bool \<Rightarrow> ustr \<Rightarrow> ustr \<Rightarrow> ustr option" where
  "lit_rest ic [] s = Some s"
| "lit_rest ic (l # ls) [] = None"
| "lit_rest ic (l # ls) (c # cs) = (if chr_ok ic l c then lit_rest ic ls cs else None)"

fun many_rests :: "(int \<Rightarrow> bool) \<Rightarrow> ustr \<Rightarrow> ustr list" where
  "many_rests p [] = [[]]"
| "many_rests p (c # cs) = (c # cs) # (if p c then many_rests p cs else [])"

fun iter_rests :: "nat \<Rightarrow> (ustr \<Rightarrow> ustr list) \<Rightarrow> ustr \<Rightarrow> ustr list" where
  "iter_rests 0 f s = [s]"
| "iter_rests (Suc n) f s = concat (map (iter_rests n f) (f s))"

fun rests :: "bool \<Rightarrow> rx \<Rightarrow> ustr \<Rightarrow> ustr list" where
  "rests ic (Lit l) s = (case lit_rest ic l s of None \<Rightarrow> [] | Some t \<Rightarrow> [t])"
| "rests ic (Cls items) s =
     (case s of [] \<Rightarrow> [] | c # cs \<Rightarrow> if cls_ok ic items c then [cs] else [])"
| "rests ic (Seq a b) s = concat (map (rests ic b) (rests ic a s))"
| "rests ic (Alt a b) s = rests ic a s @ rests ic b s"
| "rests ic (Many items) s = many_rests (cls_ok ic items) s"
| "rests ic (Rep n r) s = iter_rests n (rests ic r) s"
| "rests ic (Opt r) s = rests ic r s @ [s]"
| "rests ic Dollar s = (if s = [] \<or> s = [newline] then [s] else [])"

definition re_match :: "bool \<Rightarrow> rx \<Rightarrow> ustr \<Rightarrow> bool" where
  "re_match ic r s = (rests ic r s \<noteq> [])"

text \<open>
  \<open>\d\<close>, a decimal digit. Among the code points below 256, which are all that
  \<open>validate\<close> passes to the pattern that uses it, these are \<open>0\<close> to \<open>9\<close>.
\<close>

definition is_digit :: "int \<Rightarrow> bool" where
  "is_digit c = (48 \<le> c \<and> c \<le> 57)"

text \<open>The classes \<open>[0-9a-fA-F]\<close>, \<open>[a-z0-9]\<close>, \<open>[a-z0-9\-./]\<close> and \<open>[\d.]\<close>.\<close>

definition hex_cls :: "cls_item list" where
  "hex_cls = [Rng 48 57, Rng 97 102, Rng 65 70]"

definition name_head_cls :: "cls_item list" where
  "name_head_cls = [Rng 97 122, Rng 48 57]"

definition name_tail_cls :: "cls_item list" where
  "name_tail_cls = [Rng 97 122, Rng 48 57, Rng 45 45, Rng 46 46, Rng 47 47]"

definition num_cls :: "cls_item list" where
  "num_cls = [Cat is_digit, Rng 46 46]"

section \<open>Constants and the Token data model\<close>

definition CATEGORIES :: "string list" where
  "CATEGORIES = [''color'', ''spacing'', ''typography'', ''shadow'', ''radius'',
                 ''opacity'', ''z-index'', ''breakpoint'', ''motion'', ''border'']"

record Token =
  id_t :: string
  name :: string
  category :: string
  value_t :: string
  description :: string
  aliases :: "string list"
  deprecated :: bool
  deprecated_reason :: string
  tags :: "string list"
  created_at :: string
  updated_at :: string
  version :: int

text \<open>
  \<open>_is_valid_color\<close>: the twelve patterns in the order of the source, tried on the
  stripped value with \<open>re.IGNORECASE\<close>.
\<close>

definition color_patterns :: "rx list" where
  "color_patterns =
    [Seq (Lit (uni ''#'')) (Seq (Rep 3 (Cls hex_cls)) (Seq (Opt (Rep 3 (Cls hex_cls))) Dollar)),
     Seq (Lit (uni ''#'')) (Seq (Rep 8 (Cls hex_cls)) Dollar),
     Lit (uni ''rgb(''), Lit (uni ''rgba(''), Lit (uni ''hsl(''), Lit (uni ''hsla(''),
     Lit (uni ''oklch(''), Lit (uni ''color(''),
     Lit (uni ''var(--''),
     Seq (Lit (uni ''transparent'')) Dollar, Seq (Lit (uni ''currentColor'')) Dollar,
     Seq (Lit (uni ''inherit'')) Dollar]"

definition is_valid_color :: "ustr \<Rightarrow> bool" where
  "is_valid_color v = list_ex (\<lambda>p. re_match True p (strip v)) color_patterns"

text \<open>The pattern of token names, \<open>^[a-z0-9][a-z0-9\-./]*$\<close>.\<close>

definition name_pattern :: rx where
  "name_pattern = Seq (Cls name_head_cls) (Seq (Many name_tail_cls) Dollar)"

text \<open>The pattern of spacing values, \<open>^[\d.]+(?:px|rem|em|%|vw|vh)$\<close>.\<close>

definition spacing_pattern :: rx where
  "spacing_pattern =
     Seq (Cls num_cls) (Seq (Many num_cls)
       (Seq (Alt (Lit (uni ''px'')) (Alt (Lit (uni ''rem'')) (Alt (Lit (uni ''em''))
              (Alt (Lit (uni ''%'')) (Alt (Lit (uni ''vw'')) (Lit (uni ''vh'')))))))
            Dollar))"

text \<open>The text Python prints for the tuple \<open>CATEGORIES\<close> inside an f-string.\<close>

definition repr_categories :: string where
  "repr_categories = ''('' @ join '', '' (map (\<lambda>c. quote @ c @ quote) CATEGORIES) @ '')''"

text \<open>
  \<open>Token.validate\<close>: every check runs, and the messages are collected in the order of
  the source.
\<close>

definition validate :: "Token \<Rightarrow> string list" where
  "validate t =
    (if name t = [] then [''name is required''] else []) @
    (if \<not> re_match False name_pattern (uni (lower (name t)))
     then [''name '' @ quote @ name t @ quote @
           '' must be lowercase, digits, hyphens, dots or slashes''] else []) @
    (if category t \<notin> set CATEGORIES
     then [''category '' @ quote @ category t @ quote @ '' must be one of '' @ repr_categories]
     else []) @
    (if value_t t = [] then [''value is required''] else []) @
    (if category t = ''color'' \<and> \<not> is_valid_color (uni (value_t t))
     then [''value '' @ quote @ value_t t @ quote @ '' doesn'' @ quote @
           ''t look like a valid color''] else []) @
    (if category t = ''spacing'' \<and> \<not> re_match False spacing_pattern (strip (uni (value_t t)))
        \<and> \<not> startswith (value_t t) ''var(''
     then [''spacing value '' @ quote @ value_t t @ quote @
           '' should include a unit (px/rem/em)''] else [])"

section \<open>Key derivation\<close>

text \<open>
  \<open>re.split(r"[-/. ]+", name)\<close>: the text before the first run of separators, then the
  split of what follows the run. A separator at either end of the name gives an empty
  segment there.
\<close>

definition is_sep :: "int \<Rightarrow> bool" where
  "is_sep c = (c = 45 \<or> c = 47 \<or> c = 46 \<or> c = 32)"

function re_split :: "ustr \<Rightarrow> ustr list" where
  "re_split s =
     (let seg = takeWhile (\<lambda>c. \<not> is_sep c) s;
          r = dropWhile (\<lambda>c. \<not> is_sep c) s
      in if r = [] then [seg] else seg # re_split (dropWhile is_sep r))"
  by pat_completeness auto
termination
proof (relation "measure length")
  fix s seg r
  assume r: "r = dropWhile (\<lambda>c. \<not> is_sep c) s" and ne: "r \<noteq> []"
  have "length (dropWhile is_sep r) < length r"
  proof (cases r)
    case Nil
    then show ?thesis using ne by simp
  next
    case (Cons c cs)
    then have d: "dropWhile (\<lambda>c. \<not> is_sep c) s = c # cs" using r by simp
    have "is_sep c" using hd_dropWhile [of "\<lambda>c. \<not> is_sep c" s] by (simp add: d)
    then show ?thesis using Cons length_dropWhile_le [of is_sep cs] by simp
  qed
  moreover have "length r \<le> length s" using r by (simp add: length_dropWhile_le)
  ultimately show "(dropWhile is_sep r, s) \<in> measure length" by simp
qed simp

declare re_split.simps [simp del]

text \<open>
  \<open>str.lower\<close> and \<open>str.title\<close> read the Unicode character database of the Python
  runtime, which is no part of the program. For code points above 127 the database is a
  parameter of the model: whether a code point is cased, its title case (one to three
  code points), and the lower case of the character at a position of a string (which
  depends on the position for the capital sigma only). For ASCII the three are written
  out: the letters are the cased code points, and a letter is mapped to its one
  upper-case or lower-case partner.
\<close>

record unicode_db =
  db_cased :: "int \<Rightarrow> bool"
  db_title :: "int \<Rightarrow> ustr"
  db_lower :: "ustr \<Rightarrow> nat \<Rightarrow> ustr"

definition cased :: "unicode_db \<Rightarrow> int \<Rightarrow> bool" where
  "cased db c = (if c < 128 then is_ascii_letter c else db_cased db c)"

definition title_cp :: "unicode_db \<Rightarrow> int \<Rightarrow> ustr" where
  "title_cp db c = (if c < 128 then [upper_ascii c] else db_title db c)"

definition lower_cp :: "unicode_db \<Rightarrow> ustr \<Rightarrow> nat \<Rightarrow> ustr" where
  "lower_cp db s i = (if s ! i < 128 then [lower_ascii (s ! i)] else db_lower db s i)"

text \<open>\<open>str.lower\<close>: the lower case of the character at each position, in order.\<close>

definition lower_str :: "unicode_db \<Rightarrow> ustr \<Rightarrow> ustr" where
  "lower_str db s = concat (map (lower_cp db s) [0..<length s])"

text \<open>
  \<open>str.title\<close>: the loop over the positions \<open>is\<close> of \<open>s\<close> that are left, with the flag
  that says whether the character before was cased. A character after a cased one is
  lower-cased, any other is title-cased. The positions are those of \<open>s\<close>, so \<open>s ! i\<close> is
  always inside \<open>s\<close>.
\<close>

fun title_loop :: "unicode_db \<Rightarrow> ustr \<Rightarrow> nat list \<Rightarrow> bool \<Rightarrow> ustr" where
  "title_loop db s [] previous_is_cased = []"
| "title_loop db s (i # is) previous_is_cased =
     (if previous_is_cased then lower_cp db s i else title_cp db (s ! i)) @
     title_loop db s is (cased db (s ! i))"

definition title :: "unicode_db \<Rightarrow> ustr \<Rightarrow> ustr" where
  "title db s = title_loop db s [0..<length s] False"

text \<open>\<open>_camel\<close>. \<open>re.split\<close> returns at least one segment, so \<open>parts[0]\<close> exists.\<close>

definition camel :: "unicode_db \<Rightarrow> ustr \<Rightarrow> ustr" where
  "camel db n =
     (case re_split n of [] \<Rightarrow> [] | p # ps \<Rightarrow> lower_str db p @ concat (map (title db) ps))"

section \<open>The store\<close>

text \<open>
  The SQLite database: the rows of table \<open>tokens\<close> in insertion order and the rows of
  table \<open>token_snapshots\<close> in insertion order. A row of \<open>tokens\<close> keeps the lists
  \<open>aliases\<close> and \<open>tags\<close> joined by commas and \<open>deprecated\<close> as an integer.
\<close>

record row =
  col_id :: string
  col_name :: string
  col_category :: string
  col_value :: string
  col_description :: string
  col_aliases :: string
  col_deprecated :: int
  col_deprecated_reason :: string
  col_tags :: string
  col_created_at :: string
  col_updated_at :: string
  col_version :: int

text \<open>
  The dictionary of \<open>TokenSet.to_dict\<close>, which \<open>json.dumps\<close> writes into column
  \<open>data\<close> and \<open>json.loads\<close> reads back: strings, booleans, integers and lists of them
  come back from JSON as they went in.
\<close>

record snapshot_data =
  ts_version :: string
  ts_name :: string
  ts_description :: string
  ts_created_at :: string
  ts_tokens :: "Token list"
  meta_count :: nat
  meta_categories :: "(string \<times> nat) list"
  meta_deprecated_count :: nat

record snap_row =
  snap_id :: string
  snap_version :: string
  snap_name :: string
  snap_description :: string
  snap_data :: snapshot_data
  snap_created_at :: string

record store =
  tokens :: "row list"
  token_snapshots :: "snap_row list"

datatype error =
    ValueError string
  | KeyError string
  | OverflowError

text \<open>\<open>s.split(",")\<close>.\<close>

fun split_comma :: "string \<Rightarrow> string list" where
  "split_comma [] = [[]]"
| "split_comma (c # cs) =
     (if c = CHR '','' then [] # split_comma cs
      else (case split_comma cs of [] \<Rightarrow> [[c]] | p # ps \<Rightarrow> (c # p) # ps))"

definition row_to_token :: "row \<Rightarrow> Token" where
  "row_to_token r =
     \<lparr>id_t = col_id r, name = col_name r, category = col_category r, value_t = col_value r,
      description = col_description r,
      aliases = (if col_aliases r \<noteq> [] then split_comma (col_aliases r) else []),
      deprecated = (col_deprecated r \<noteq> 0),
      deprecated_reason = col_deprecated_reason r,
      tags = (if col_tags r \<noteq> [] then split_comma (col_tags r) else []),
      created_at = col_created_at r, updated_at = col_updated_at r,
      version = col_version r\<rparr>"

text \<open>The twelve values \<open>add_token\<close> binds to its INSERT statement.\<close>

definition token_to_row :: "Token \<Rightarrow> row" where
  "token_to_row t =
     \<lparr>col_id = id_t t, col_name = name t, col_category = category t, col_value = value_t t,
      col_description = description t, col_aliases = join '','' (aliases t),
      col_deprecated = (if deprecated t then 1 else 0),
      col_deprecated_reason = deprecated_reason t,
      col_tags = join '','' (tags t),
      col_created_at = created_at t, col_updated_at = updated_at t,
      col_version = version t\<rparr>"

text \<open>
  An SQLite INTEGER has 64 bits; binding a Python integer outside that range raises
  OverflowError before the statement runs.
\<close>

definition fits_int64 :: "int \<Rightarrow> bool" where
  "fits_int64 v = (- (2 ^ 63) \<le> v \<and> v < 2 ^ 63)"

text \<open>
  \<open>add_token\<close>, with the time \<open>_now()\<close> returns as a parameter. The INSERT fails with
  IntegrityError when the primary key \<open>id\<close> or the unique \<open>name\<close> is already in the
  table, and the function turns either into the same ValueError.
\<close>

definition add_token :: "store \<Rightarrow> Token \<Rightarrow> string \<Rightarrow> store \<times> (error + Token)" where
  "add_token st token now =
    (let errors = validate token in
     if errors \<noteq> [] then
       (st, Inl (ValueError (''Token validation failed: '' @ join ''; '' errors)))
     else
       let token = token\<lparr>created_at := (if created_at token \<noteq> [] then created_at token else now),
                          updated_at := now\<rparr>
       in if \<not> fits_int64 (version token) then (st, Inl OverflowError)
          else if list_ex (\<lambda>r. col_id r = id_t token \<or> col_name r = name token) (tokens st) then
            (st, Inl (ValueError (''Token with name '' @ quote @ name token @ quote @
                                  '' already exists'')))
          else (st\<lparr>tokens := tokens st @ [token_to_row token]\<rparr>, Inr token))"

text \<open>
  \<open>SELECT * FROM tokens WHERE id=? OR name=?\<close> followed by \<open>fetchone()\<close>. Both columns
  carry an index, and the row whose id matches is returned before a row whose name
  matches; the two can only differ when one token's id is another token's name.
\<close>

definition lookup :: "row list \<Rightarrow> string \<Rightarrow> row option" where
  "lookup rows k =
     (case find (\<lambda>r. col_id r = k) rows of
        Some r \<Rightarrow> Some r
      | None \<Rightarrow> find (\<lambda>r. col_name r = k) rows)"

text \<open>
  The keyword arguments of \<open>update_token\<close>: one optional value for each attribute of
  Token. A keyword that is no attribute of Token is skipped by the \<open>hasattr\<close> test and
  needs no field here; a keyword that names a method of Token is outside the model.
\<close>

record patch =
  p_id :: "string option"
  p_name :: "string option"
  p_category :: "string option"
  p_value :: "string option"
  p_description :: "string option"
  p_aliases :: "string list option"
  p_deprecated :: "bool option"
  p_deprecated_reason :: "string option"
  p_tags :: "string list option"
  p_created_at :: "string option"
  p_updated_at :: "string option"
  p_version :: "int option"

definition pick :: "'a option \<Rightarrow> 'a \<Rightarrow> 'a" where
  "pick v old = (case v of None \<Rightarrow> old | Some x \<Rightarrow> x)"

definition apply_patch :: "patch \<Rightarrow> Token \<Rightarrow> Token" where
  "apply_patch p t =
     \<lparr>id_t = pick (p_id p) (id_t t), name = pick (p_name p) (name t),
      category = pick (p_category p) (category t), value_t = pick (p_value p) (value_t t),
      description = pick (p_description p) (description t),
      aliases = pick (p_aliases p) (aliases t),
      deprecated = pick (p_deprecated p) (deprecated t),
      deprecated_reason = pick (p_deprecated_reason p) (deprecated_reason t),
      tags = pick (p_tags p) (tags t),
      created_at = pick (p_created_at p) (created_at t),
      updated_at = pick (p_updated_at p) (updated_at t),
      version = pick (p_version p) (version t)\<rparr>"

text \<open>The nine columns the UPDATE statement sets, on a row it selects.\<close>

definition write_row :: "Token \<Rightarrow> row \<Rightarrow> row" where
  "write_row t r =
     r\<lparr>col_category := category t, col_value := value_t t, col_description := description t,
       col_aliases := join '','' (aliases t),
       col_deprecated := (if deprecated t then 1 else 0),
       col_deprecated_reason := deprecated_reason t,
       col_tags := join '','' (tags t),
       col_updated_at := updated_at t, col_version := version t\<rparr>"

text \<open>
  \<open>update_token\<close>. The KeyError carries the key that was looked up. The UPDATE runs
  \<open>WHERE id=?\<close> with the id of the patched token.
\<close>

definition update_token :: "store \<Rightarrow> string \<Rightarrow> patch \<Rightarrow> string \<Rightarrow> store \<times> (error + Token)" where
  "update_token st name_or_id kw now =
    (case lookup (tokens st) name_or_id of
       None \<Rightarrow> (st, Inl (KeyError name_or_id))
     | Some r \<Rightarrow>
        (let token = apply_patch kw (row_to_token r);
             token = token\<lparr>updated_at := now, version := version token + 1\<rparr>;
             errors = validate token
         in if errors \<noteq> [] then
              (st, Inl (ValueError (''Validation failed: '' @ join ''; '' errors)))
            else if \<not> fits_int64 (version token) then (st, Inl OverflowError)
            else (st\<lparr>tokens := map (\<lambda>x. if col_id x = id_t token then write_row token x else x)
                                    (tokens st)\<rparr>,
                  Inr token)))"

definition get_token :: "store \<Rightarrow> string \<Rightarrow> Token option" where
  "get_token st name_or_id = map_option row_to_token (lookup (tokens st) name_or_id)"

definition delete_token :: "store \<Rightarrow> string \<Rightarrow> store \<times> bool" where
  "delete_token st name_or_id =
     (st\<lparr>tokens := filter (\<lambda>r. \<not> (col_id r = name_or_id \<or> col_name r = name_or_id)) (tokens st)\<rparr>,
      list_ex (\<lambda>r. col_id r = name_or_id \<or> col_name r = name_or_id) (tokens st))"

text \<open>
  \<open>ORDER BY category, name\<close>: text is compared code point by code point, a proper
  prefix first.
\<close>

fun str_less :: "string \<Rightarrow> string \<Rightarrow> bool" where
  "str_less [] [] = False"
| "str_less [] (y # ys) = True"
| "str_less (x # xs) [] = False"
| "str_less (x # xs) (y # ys) = (cp x < cp y \<or> (x = y \<and> str_less xs ys))"

definition row_before :: "row \<Rightarrow> row \<Rightarrow> bool" where
  "row_before r1 r2 =
     (str_less (col_category r1) (col_category r2) \<or>
      (col_category r1 = col_category r2 \<and> \<not> str_less (col_name r2) (col_name r1)))"

fun insort_row :: "row \<Rightarrow> row list \<Rightarrow> row list" where
  "insort_row x [] = [x]"
| "insort_row x (y # ys) = (if row_before x y then x # y # ys else y # insort_row x ys)"

definition sort_rows :: "row list \<Rightarrow> row list" where
  "sort_rows rows = foldr insort_row rows []"

text \<open>\<open>list_tokens\<close>; \<open>category\<close> filters when it is given and not empty.\<close>

definition list_tokens :: "string option \<Rightarrow> bool \<Rightarrow> store \<Rightarrow> Token list" where
  "list_tokens cat include_deprecated st =
     map row_to_token (sort_rows (filter
       (\<lambda>r. (case cat of None \<Rightarrow> True | Some c \<Rightarrow> c = [] \<or> col_category r = c) \<and>
             (include_deprecated \<or> col_deprecated r = 0))
       (tokens st)))"


section \<open>Snapshots\<close>

text \<open>\<open>_count_categories\<close>: a dictionary as an association list in insertion order.\<close>

fun count_categories :: "Token list \<Rightarrow> (string \<times> nat) list \<Rightarrow> (string \<times> nat) list" where
  "count_categories [] counts = counts"
| "count_categories (t # ts) counts =
     count_categories ts
       (AList.update (category t)
          ((case map_of counts (category t) of None \<Rightarrow> 0 | Some c \<Rightarrow> c) + 1) counts)"

text \<open>
  \<open>export_json_snapshot\<close>: \<open>stamp\<close> is the UTC time formatted as a version label and
  \<open>now\<close> the value of \<open>_now()\<close>.
\<close>

definition export_json_snapshot ::
    "store \<Rightarrow> string \<Rightarrow> string \<Rightarrow> string \<Rightarrow> string \<Rightarrow> string \<Rightarrow> snapshot_data" where
  "export_json_snapshot st version_arg name_arg description_arg stamp now =
     (let toks = list_tokens None True st
      in \<lparr>ts_version = (if version_arg \<noteq> [] then version_arg else stamp),
          ts_name = name_arg, ts_description = description_arg, ts_created_at = now,
          ts_tokens = toks,
          meta_count = length toks,
          meta_categories = count_categories toks [],
          meta_deprecated_count = length (filter deprecated toks)\<rparr>)"

text \<open>\<open>save_snapshot\<close>: \<open>sid\<close> is the fresh uuid and \<open>now2\<close> the second reading of the clock.\<close>

definition save_snapshot ::
    "store \<Rightarrow> string \<Rightarrow> string \<Rightarrow> string \<Rightarrow> string \<Rightarrow> string \<Rightarrow> string \<Rightarrow> string \<Rightarrow> store \<times> string" where
  "save_snapshot st version_arg name_arg description_arg stamp now sid now2 =
     (let data = export_json_snapshot st version_arg name_arg description_arg stamp now
      in (st\<lparr>token_snapshots := token_snapshots st @
               [\<lparr>snap_id = sid, snap_version = version_arg, snap_name = name_arg,
                 snap_description = description_arg, snap_data = data,
                 snap_created_at = now2\<rparr>]\<rparr>,
          sid))"

text \<open>
  A dictionary comprehension over the tokens of a snapshot: a later token replaces an
  earlier one of the same name and keeps its place.
\<close>

definition dict_of :: "Token list \<Rightarrow> (string \<times> Token) list" where
  "dict_of toks = foldl (\<lambda>d t. AList.update (name t) t d) [] toks"

text \<open>
  \<open>_load_snapshot_tokens\<close>: the first row of \<open>token_snapshots\<close> whose id or version is
  the reference (column \<open>version\<close> has no index, so the table is read in insertion order).
\<close>

definition load_snapshot_tokens :: "store \<Rightarrow> string \<Rightarrow> error + (string \<times> Token) list" where
  "load_snapshot_tokens st snapshot_id =
     (case find (\<lambda>r. snap_id r = snapshot_id \<or> snap_version r = snapshot_id) (token_snapshots st) of
        None \<Rightarrow> Inl (KeyError snapshot_id)
      | Some r \<Rightarrow> Inr (dict_of (ts_tokens (snap_data r))))"

section \<open>Diff\<close>

record change =
  before_value :: string
  before_category :: string
  before_deprecated :: bool
  after_value :: string
  after_category :: string
  after_deprecated :: bool

record diff_result =
  ref_a :: string
  ref_b :: string
  summary_added :: nat
  summary_removed :: nat
  summary_changed :: nat
  summary_unchanged :: nat
  added :: "(string \<times> Token) list"
  removed :: "(string \<times> Token) list"
  changed :: "(string \<times> change) list"


text \<open>
  The loop over the names of both dictionaries. Python walks a set, in an order it does
  not promise; the model walks the entries of \<open>a\<close> in their order and skips a name that
  \<open>b\<close> lacks. The result is a dictionary and a counter, which do not depend on the order.
\<close>

fun diff_loop :: "(string \<times> Token) list \<Rightarrow> (string \<times> Token) list \<Rightarrow>
    (string \<times> change) list \<times> nat \<Rightarrow> (string \<times> change) list \<times> nat" where
  "diff_loop [] b acc = acc"
| "diff_loop ((n, ta) # rest) b (chg, unchanged) =
     (case map_of b n of
        None \<Rightarrow> diff_loop rest b (chg, unchanged)
      | Some tb \<Rightarrow>
          if value_t ta \<noteq> value_t tb \<or> category ta \<noteq> category tb \<or> deprecated ta \<noteq> deprecated tb
          then diff_loop rest b
                 (AList.update n
                    \<lparr>before_value = value_t ta, before_category = category ta,
                     before_deprecated = deprecated ta,
                     after_value = value_t tb, after_category = category tb,
                     after_deprecated = deprecated tb\<rparr> chg,
                  unchanged)
          else diff_loop rest b (chg, unchanged + 1))"

definition diff_maps :: "string \<Rightarrow> string \<Rightarrow> (string \<times> Token) list \<Rightarrow> (string \<times> Token) list \<Rightarrow> diff_result" where
  "diff_maps ida idb a b =
     (let added_d = filter (\<lambda>(n, t). n \<notin> set (map fst a)) b;
          removed_d = filter (\<lambda>(n, t). n \<notin> set (map fst b)) a;
          (changed_d, unchanged) = diff_loop a b ([], 0)
      in \<lparr>ref_a = ida, ref_b = idb,
          summary_added = length added_d, summary_removed = length removed_d,
          summary_changed = length changed_d, summary_unchanged = unchanged,
          added = added_d, removed = removed_d, changed = changed_d\<rparr>)"


section \<open>Bulk import\<close>

text \<open>
  An entry of the imported mapping: a value that is no JSON object, or an object with
  the keys the importer reads. The model covers objects whose values under these keys
  are strings, and a list of strings under \<open>tags\<close>.
\<close>

record import_spec =
  k_dollar_value :: "string option"
  k_value :: "string option"
  k_dollar_type :: "string option"
  k_category :: "string option"
  k_dollar_description :: "string option"
  k_description :: "string option"
  k_tags :: "string list option"

datatype import_entry = NotDict | Dict import_spec

text \<open>
  What one turn of the loop reads from outside: the uuid, the two clock readings that
  fill \<open>created_at\<close> and \<open>updated_at\<close> of the new Token, and the clock reading inside
  \<open>add_token\<close>.
\<close>

record import_env =
  e_uuid :: string
  e_created :: string
  e_updated :: string
  e_now :: string

definition entry_token :: "string \<Rightarrow> import_spec \<Rightarrow> import_env \<Rightarrow> Token" where
  "entry_token n spec env =
     (let v = (case k_dollar_value spec of Some x \<Rightarrow> x
               | None \<Rightarrow> (case k_value spec of Some x \<Rightarrow> x | None \<Rightarrow> []));
          c = (case k_dollar_type spec of Some x \<Rightarrow> x
               | None \<Rightarrow> (case k_category spec of Some x \<Rightarrow> x | None \<Rightarrow> ''color''));
          c = (if c \<notin> set CATEGORIES then ''color'' else c)
      in \<lparr>id_t = e_uuid env, name = n, category = c, value_t = v,
          description = (case k_dollar_description spec of Some x \<Rightarrow> x
               | None \<Rightarrow> (case k_description spec of Some x \<Rightarrow> x | None \<Rightarrow> [])),
          aliases = [], deprecated = False, deprecated_reason = [],
          tags = (case k_tags spec of Some x \<Rightarrow> x | None \<Rightarrow> []),
          created_at = e_created env, updated_at = e_updated env, version = 1\<rparr>)"

text \<open>
  The loop of \<open>import_json\<close> over the entries, \<open>i\<close> counting them. Only ValueError is
  caught; another error leaves the loop and the function.
\<close>

fun import_loop :: "store \<Rightarrow> (string \<times> import_entry) list \<Rightarrow> (nat \<Rightarrow> import_env) \<Rightarrow> nat \<Rightarrow>
    nat \<times> nat \<times> string list \<Rightarrow> store \<times> (error + nat \<times> nat \<times> string list)" where
  "import_loop st [] env i acc = (st, Inr acc)"
| "import_loop st ((n, NotDict) # rest) env i acc = import_loop st rest env (i + 1) acc"
| "import_loop st ((n, Dict spec) # rest) env i (n_added, skipped, errors) =
     (case add_token st (entry_token n spec (env i)) (e_now (env i)) of
        (st', Inr t) \<Rightarrow> import_loop st' rest env (i + 1) (n_added + 1, skipped, errors)
      | (st', Inl (ValueError m)) \<Rightarrow>
          if contains ''already exists'' m
          then import_loop st' rest env (i + 1) (n_added, skipped + 1, errors)
          else import_loop st' rest env (i + 1) (n_added, skipped, errors @ [m])
      | (st', Inl e) \<Rightarrow> (st', Inl e))"

definition import_json :: "store \<Rightarrow> (string \<times> import_entry) list \<Rightarrow> (nat \<Rightarrow> import_env) \<Rightarrow>
    store \<times> (error + nat \<times> nat \<times> string list)" where
  "import_json st tokens_data env = import_loop st tokens_data env 0 (0, 0, [])"

section \<open>Sequences of store operations\<close>

datatype store_op =
    Add Token string
  | Update string patch string
  | Delete string

fun apply_op :: "store \<Rightarrow> store_op \<Rightarrow> store" where
  "apply_op st (Add t now) = fst (add_token st t now)"
| "apply_op st (Update k p now) = fst (update_token st k p now)"
| "apply_op st (Delete k) = fst (delete_token st k)"

definition run_ops :: "store \<Rightarrow> store_op list \<Rightarrow> store" where
  "run_ops st ops = foldl apply_op st ops"

section \<open>The shapes the specification names\<close>

text \<open>A hexadecimal digit, and a \<open>#\<close> followed by exactly \<open>n\<close> hexadecimal digits.\<close>

definition hex_digit :: "int \<Rightarrow> bool" where
  "hex_digit c = ((48 \<le> c \<and> c \<le> 57) \<or> (97 \<le> c \<and> c \<le> 102) \<or> (65 \<le> c \<and> c \<le> 70))"

definition hex_color :: "nat \<Rightarrow> ustr \<Rightarrow> bool" where
  "hex_color n s = (case s of [] \<Rightarrow> False | c # h \<Rightarrow> c = 35 \<and> length h = n \<and> list_all hex_digit h)"

text \<open>
  The code points that may stand for the character \<open>l\<close> of a prefix or word: \<open>l\<close> itself;
  for a letter also its partner of the other case; for \<open>i\<close> also the capital I with dot
  above (304) and the dotless i (305); for \<open>s\<close> also the long s (383); for \<open>k\<close> also the
  Kelvin sign (8490).
\<close>

definition ic_variants :: "int \<Rightarrow> int list" where
  "ic_variants l =
     (if is_ascii_letter l then
        [lower_ascii l, upper_ascii l] @
        (if lower_ascii l = 105 then [304, 305]
         else if lower_ascii l = 115 then [383]
         else if lower_ascii l = 107 then [8490]
         else [])
      else [l])"

text \<open>\<open>s\<close> begins with \<open>p\<close>, and \<open>s\<close> is \<open>p\<close>, in both cases up to these variants.\<close>

definition ci_prefix :: "ustr \<Rightarrow> ustr \<Rightarrow> bool" where
  "ci_prefix p s =
     (length p \<le> length s \<and> list_all2 (\<lambda>l c. c \<in> set (ic_variants l)) p (take (length p) s))"

definition ci_equal :: "ustr \<Rightarrow> ustr \<Rightarrow> bool" where
  "ci_equal p s = list_all2 (\<lambda>l c. c \<in> set (ic_variants l)) p s"

definition color_error :: "string \<Rightarrow> string" where
  "color_error v = ''value '' @ quote @ v @ quote @ '' doesn'' @ quote @ ''t look like a valid color''"

text \<open>
  The segment rule as the specification words it: the first letter upper-cased, the rest
  unchanged.
\<close>

definition cap_keep_rest :: "ustr \<Rightarrow> ustr" where
  "cap_keep_rest seg = (case seg of [] \<Rightarrow> [] | c # cs \<Rightarrow> upper_ascii c # cs)"

definition spec_camelKey :: "unicode_db \<Rightarrow> ustr \<Rightarrow> ustr" where
  "spec_camelKey db n =
     (case re_split n of [] \<Rightarrow> [] | p # ps \<Rightarrow> lower_str db p @ concat (map cap_keep_rest ps))"

text \<open>
  A stand-in for the database that leaves every code point above 127 as it is; it serves
  to run the functions on ASCII text, where the database is not read.
\<close>

definition plain_db :: unicode_db where
  "plain_db = \<lparr>db_cased = (\<lambda>c. False), db_title = (\<lambda>c. [c]), db_lower = (\<lambda>s i. [s ! i])\<rparr>"

text \<open>What a list of strings reads back as after it was stored joined by commas.\<close>

definition stored_list :: "string list \<Rightarrow> string list" where
  "stored_list xs = (if join '','' xs \<noteq> [] then split_comma (join '','' xs) else [])"

definition comma_free :: "string \<Rightarrow> bool" where
  "comma_free s = (CHR '','' \<notin> set s)"

definition empty_store :: store where
  "empty_store = \<lparr>tokens = [], token_snapshots = []\<rparr>"

text \<open>A string that does not end in a newline, where \<open>$\<close> only matches at the end.\<close>

definition ends_ok :: "ustr \<Rightarrow> bool" where
  "ends_ok s = (\<forall>w. s \<noteq> w @ [newline])"

section \<open>Facts about characters and patterns\<close>

lemma list_ex_upto: "list_ex P [a..b] \<longleftrightarrow> (\<exists>m. a \<le> m \<and> m \<le> b \<and> P m)"
  by (auto simp: list_ex_iff)

lemma sre_lower_digit: "48 \<le> sre_lower c \<and> sre_lower c \<le> 57 \<longleftrightarrow> 48 \<le> c \<and> c \<le> 57"
  by (auto simp: sre_lower_def is_ascii_upper_def)

lemma sre_lower_a_f:
  "97 \<le> sre_lower c \<and> sre_lower c \<le> 102 \<longleftrightarrow> (97 \<le> c \<and> c \<le> 102) \<or> (65 \<le> c \<and> c \<le> 70)"
  by (auto simp: sre_lower_def is_ascii_upper_def)

lemma item_digits: "item_ok True x (Rng 48 57) \<longleftrightarrow> 48 \<le> x \<and> x \<le> 57"
proof -
  have "sre_lower m = m" "ignorecase_fixes m = []" if "48 \<le> m" "m \<le> 57" for m
    using that by (simp_all add: sre_lower_def is_ascii_upper_def ignorecase_fixes_def)
  then show ?thesis
    by (auto simp: item_ok_def list_ex_upto)
qed

lemma item_a_f: "item_ok True x (Rng 97 102) \<longleftrightarrow> 97 \<le> x \<and> x \<le> 102"
proof -
  have "sre_lower m = m" "ignorecase_fixes m = []" if "97 \<le> m" "m \<le> 102" for m
    using that by (simp_all add: sre_lower_def is_ascii_upper_def ignorecase_fixes_def)
  then show ?thesis
    by (auto simp: item_ok_def list_ex_upto)
qed

lemma item_A_F: "item_ok True x (Rng 65 70) \<longleftrightarrow> 97 \<le> x \<and> x \<le> 102"
proof -
  have f: "sre_lower m = m + 32 \<and> ignorecase_fixes (sre_lower m) = []" if "65 \<le> m" "m \<le> 70" for m
    using that by (simp add: sre_lower_def is_ascii_upper_def ignorecase_fixes_def)
  show ?thesis
  proof
    assume "item_ok True x (Rng 65 70)"
    then obtain m where "65 \<le> m" "m \<le> 70"
        "sre_lower m = x \<or> x \<in> set (ignorecase_fixes (sre_lower m))"
      by (auto simp: item_ok_def list_ex_upto)
    then show "97 \<le> x \<and> x \<le> 102" using f [of m] by auto
  next
    assume a: "97 \<le> x \<and> x \<le> 102"
    then have "65 \<le> x - 32 \<and> x - 32 \<le> 70 \<and> sre_lower (x - 32) = x"
      using f [of "x - 32"] by simp
    then show "item_ok True x (Rng 65 70)"
      unfolding item_ok_def cls_item.case if_True list_ex_upto by blast
  qed
qed

lemma hex_cls_ic: "cls_ok True hex_cls c = hex_digit c"
  unfolding cls_ok_def hex_cls_def list_ex_Cons_iff list_ex_Nil_iff if_True
    item_digits item_a_f item_A_F sre_lower_digit sre_lower_a_f hex_digit_def
  by blast

lemma chr_ok_ic: "chr_ok True l c \<longleftrightarrow> c \<in> set (ic_variants l)"
proof (cases "is_ascii_letter l")
  case False
  then show ?thesis by (simp add: chr_ok_def ic_variants_def)
next
  case True
  define lo where "lo = lower_ascii l"
  have lo: "97 \<le> lo" "lo \<le> 122" "sre_lower l = lo"
    using True
    by (auto simp: lo_def lower_ascii_def sre_lower_def is_ascii_letter_def is_ascii_upper_def
        is_ascii_lower_def)
  have up: "upper_ascii l = lo - 32"
    using True
    by (auto simp: lo_def lower_ascii_def upper_ascii_def is_ascii_letter_def is_ascii_upper_def
        is_ascii_lower_def)
  have low: "sre_lower c = lo \<longleftrightarrow>
      c = lo \<or> c = lo - 32 \<or> (lo = 105 \<and> c = 304) \<or> (lo = 107 \<and> c = 8490)"
    using lo(1,2) by (auto simp: sre_lower_def is_ascii_upper_def)
  have fix1: "sre_lower c = 305 \<longleftrightarrow> c = 305" and fix2: "sre_lower c = 383 \<longleftrightarrow> c = 383"
    by (auto simp: sre_lower_def is_ascii_upper_def)
  have "chr_ok True l c \<longleftrightarrow>
      sre_lower c = lo \<or> (lo = 105 \<and> sre_lower c = 305) \<or> (lo = 115 \<and> sre_lower c = 383)"
    using True by (auto simp: chr_ok_def lo(3) ignorecase_fixes_def)
  also have "\<dots> \<longleftrightarrow> c = lo \<or> c = lo - 32 \<or> (lo = 105 \<and> (c = 304 \<or> c = 305)) \<or>
      (lo = 115 \<and> c = 383) \<or> (lo = 107 \<and> c = 8490)"
    unfolding low fix1 fix2 by blast
  also have "\<dots> \<longleftrightarrow> c \<in> set (ic_variants l)"
    using True by (auto simp: ic_variants_def up lo_def [symmetric])
  finally show ?thesis .
qed

lemma lit_rest_Some:
  "lit_rest ic l s = Some t \<longleftrightarrow>
     length l \<le> length s \<and> t = drop (length l) s \<and> list_all2 (chr_ok ic) l (take (length l) s)"
  by (induction ic l s rule: lit_rest.induct) auto

lemma lit_rest_ic:
  "lit_rest True l s = Some t \<longleftrightarrow> ci_prefix l s \<and> t = drop (length l) s"
proof -
  have "chr_ok True = (\<lambda>l c. c \<in> set (ic_variants l))"
    by (intro ext) (rule chr_ok_ic)
  then show ?thesis
    by (auto simp: lit_rest_Some ci_prefix_def)
qed

lemma iter_cls:
  "set (iter_rests n (rests ic (Cls p)) s) =
     (if n \<le> length s \<and> list_all (cls_ok ic p) (take n s) then {drop n s} else {})"
proof (induction n arbitrary: s)
  case 0
  show ?case by simp
next
  case (Suc n)
  show ?case
  proof (cases s)
    case Nil
    then show ?thesis by simp
  next
    case (Cons c cs)
    then show ?thesis using Suc [of cs] by simp
  qed
qed

lemma strip_last: "strip v = w @ [c] \<Longrightarrow> \<not> is_space c"
proof -
  assume a: "strip v = w @ [c]"
  then have "dropWhile is_space (rev (dropWhile is_space v)) = c # rev w"
    unfolding strip_def by (metis rev.simps(2) rev_append rev_singleton_conv rev_swap)
  then show ?thesis
    by (metis hd_dropWhile list.distinct(1) list.sel(1))
qed

lemma ends_ok_strip: "ends_ok (strip v)"
  unfolding ends_ok_def
proof
  fix w
  have "is_space newline" by (simp add: is_space_def newline_def)
  then show "strip v \<noteq> w @ [newline]" using strip_last [of v w newline] by blast
qed

lemma ends_ok_drop: "ends_ok s \<Longrightarrow> ends_ok (drop n s)"
  unfolding ends_ok_def
  by (metis append_take_drop_id append_assoc)

lemma ends_ok_tl: "ends_ok (c # s) \<Longrightarrow> ends_ok s"
  unfolding ends_ok_def
  by (metis append_Cons)

lemma dollar_ends: "ends_ok t \<Longrightarrow> set (rests ic Dollar t) = (if t = [] then {[]} else {})"
  unfolding ends_ok_def by (metis append_Nil empty_set list.simps(15) rests.simps(8))

lemma set_rests_Lit:
  "set (rests True (Lit l) s) = (if ci_prefix l s then {drop (length l) s} else {})"
proof (cases "lit_rest True l s")
  case None
  then show ?thesis using lit_rest_ic [of l s] by auto
next
  case (Some t)
  then show ?thesis using lit_rest_ic [of l s t] by auto
qed

lemma set_rests_Seq: "set (rests ic (Seq a b) s) = (\<Union>t \<in> set (rests ic a s). set (rests ic b t))"
  by simp

lemma set_rests_hex: "set (rests True (Rep n (Cls hex_cls)) s) =
     (if n \<le> length s \<and> list_all hex_digit (take n s) then {drop n s} else {})"
proof -
  have "cls_ok True hex_cls = hex_digit" by (rule ext) (rule hex_cls_ic)
  then show ?thesis using iter_cls [of n True hex_cls s] by simp
qed

lemma re_match_set: "re_match ic r s \<longleftrightarrow> set (rests ic r s) \<noteq> {}"
  by (simp add: re_match_def)

lemma ci_equal_iff: "ci_equal l s \<longleftrightarrow> ci_prefix l s \<and> drop (length l) s = []"
proof
  assume "ci_equal l s"
  then have m: "list_all2 (\<lambda>l c. c \<in> set (ic_variants l)) l s" by (simp add: ci_equal_def)
  then have "length s = length l" by (simp add: list_all2_lengthD)
  then show "ci_prefix l s \<and> drop (length l) s = []" using m by (simp add: ci_prefix_def)
next
  assume a: "ci_prefix l s \<and> drop (length l) s = []"
  then have "length s = length l" by (simp add: ci_prefix_def)
  then show "ci_equal l s" using a by (simp add: ci_prefix_def ci_equal_def)
qed

lemma seq_det:
  assumes "set (rests ic a s) = (if C then {t} else {})"
  shows "re_match ic (Seq a b) s \<longleftrightarrow> C \<and> re_match ic b t"
proof (cases C)
  case True
  then have "set (rests ic (Seq a b) s) = set (rests ic b t)"
    using assms by (simp only: set_rests_Seq if_True UN_insert UN_empty Un_empty_right)
  then show ?thesis using True by (simp only: re_match_set simp_thms)
next
  case False
  then have "set (rests ic (Seq a b) s) = {}"
    using assms by (simp only: set_rests_Seq if_False UN_empty)
  then show ?thesis using False by (simp only: re_match_set simp_thms)
qed

lemma seq_opt: "re_match ic (Seq (Opt r) b) s \<longleftrightarrow> re_match ic (Seq r b) s \<or> re_match ic b s"
  by (simp add: re_match_def)

lemma match_dollar: "ends_ok t \<Longrightarrow> re_match ic Dollar t \<longleftrightarrow> t = []"
  using dollar_ends [of t ic] by (simp only: re_match_set split: if_splits) simp

lemma lit_dollar:
  assumes "ends_ok s"
  shows "re_match True (Seq (Lit l) Dollar) s \<longleftrightarrow> ci_equal l s"
proof -
  have e: "ends_ok (drop (length l) s)" using assms by (rule ends_ok_drop)
  have "re_match True (Seq (Lit l) Dollar) s \<longleftrightarrow>
      ci_prefix l s \<and> re_match True Dollar (drop (length l) s)"
    by (rule seq_det) (rule set_rests_Lit)
  then show ?thesis by (simp only: match_dollar [OF e] ci_equal_iff)
qed

lemma lit_prefix: "re_match True (Lit l) s \<longleftrightarrow> ci_prefix l s"
  unfolding re_match_set set_rests_Lit by simp

lemma list_all_split: "list_all P (take n h) \<and> list_all P (drop n h) \<longleftrightarrow> list_all P h"
  by (metis append_take_drop_id list_all_append)

lemma uni_hash: "uni ''#'' = [35]"
  by (simp add: uni_def)

lemma ci_prefix_hash: "ci_prefix [35] s \<longleftrightarrow> (\<exists>h. s = 35 # h)"
proof -
  have "ic_variants 35 = [35]"
    by (simp add: ic_variants_def is_ascii_letter_def is_ascii_upper_def is_ascii_lower_def)
  then show ?thesis by (cases s) (auto simp: ci_prefix_def)
qed

lemma seq_hash:
  "re_match True (Seq (Lit (uni ''#'')) b) s \<longleftrightarrow> (\<exists>h. s = 35 # h \<and> re_match True b h)"
proof -
  have "re_match True (Seq (Lit [35]) b) s \<longleftrightarrow> ci_prefix [35] s \<and> re_match True b (drop (length [35::int]) s)"
    by (rule seq_det) (rule set_rests_Lit)
  also have "\<dots> \<longleftrightarrow> (\<exists>h. s = 35 # h \<and> re_match True b h)"
    unfolding ci_prefix_hash by auto
  finally show ?thesis by (simp only: uni_hash)
qed

lemma seq_hex: "re_match True (Seq (Rep n (Cls hex_cls)) b) h \<longleftrightarrow>
    (n \<le> length h \<and> list_all hex_digit (take n h)) \<and> re_match True b (drop n h)"
  by (rule seq_det) (rule set_rests_hex)

lemma hex_exact:
  assumes "ends_ok h"
  shows "re_match True (Seq (Rep n (Cls hex_cls)) Dollar) h \<longleftrightarrow> length h = n \<and> list_all hex_digit h"
proof -
  have e: "ends_ok (drop n h)" using assms by (rule ends_ok_drop)
  have "re_match True (Seq (Rep n (Cls hex_cls)) Dollar) h \<longleftrightarrow>
      (n \<le> length h \<and> list_all hex_digit (take n h)) \<and> drop n h = []"
    by (simp only: seq_hex match_dollar [OF e])
  also have "\<dots> \<longleftrightarrow> length h = n \<and> list_all hex_digit h"
  proof
    assume a: "(n \<le> length h \<and> list_all hex_digit (take n h)) \<and> drop n h = []"
    then have "length h = n" by simp
    then show "length h = n \<and> list_all hex_digit h" using a by simp
  next
    assume "length h = n \<and> list_all hex_digit h"
    then show "(n \<le> length h \<and> list_all hex_digit (take n h)) \<and> drop n h = []" by simp
  qed
  finally show ?thesis .
qed

lemma hexn:
  assumes "ends_ok s"
  shows "re_match True (Seq (Lit (uni ''#'')) (Seq (Rep n (Cls hex_cls)) Dollar)) s \<longleftrightarrow> hex_color n s"
proof (cases s)
  case Nil
  then show ?thesis by (simp only: seq_hash hex_color_def) simp
next
  case (Cons c h)
  have e: "ends_ok h" using assms Cons ends_ok_tl by blast
  show ?thesis
    using hex_exact [OF e, of n] by (simp only: seq_hash hex_color_def Cons) auto
qed

lemma hex_double:
  assumes "ends_ok h"
  shows "re_match True (Seq (Rep n (Cls hex_cls)) (Seq (Opt (Rep n (Cls hex_cls))) Dollar)) h \<longleftrightarrow>
     (length h = n \<and> list_all hex_digit h) \<or> (length h = n + n \<and> list_all hex_digit h)"
proof -
  define k where "k = drop n h"
  have e: "ends_ok k" unfolding k_def using assms by (rule ends_ok_drop)
  have t: "re_match True (Seq (Opt (Rep n (Cls hex_cls))) Dollar) k \<longleftrightarrow>
       (length k = n \<and> list_all hex_digit k) \<or> k = []"
    by (simp only: seq_opt hex_exact [OF e] match_dollar [OF e])
  have "re_match True (Seq (Rep n (Cls hex_cls)) (Seq (Opt (Rep n (Cls hex_cls))) Dollar)) h \<longleftrightarrow>
     (n \<le> length h \<and> list_all hex_digit (take n h)) \<and> ((length k = n \<and> list_all hex_digit k) \<or> k = [])"
    by (simp only: seq_hex t [unfolded k_def] k_def)
  also have "\<dots> \<longleftrightarrow> (length h = n \<and> list_all hex_digit h) \<or> (length h = n + n \<and> list_all hex_digit h)"
  proof -
    have g: "list_all hex_digit (take n h) \<and> list_all hex_digit k \<longleftrightarrow> list_all hex_digit h"
      unfolding k_def by (rule list_all_split)
    have l: "length k = length h - n" by (simp add: k_def)
    have z: "k = [] \<longleftrightarrow> length h \<le> n" by (simp add: k_def)
    show ?thesis
    proof (cases "length h \<le> n")
      case True
      then have "list_all hex_digit k" using z by simp
      then have "list_all hex_digit (take n h) \<longleftrightarrow> list_all hex_digit h" using g by simp
      then show ?thesis using True l z by auto
    next
      case False
      then show ?thesis using l z g by auto
    qed
  qed
  finally show ?thesis .
qed

lemma hex36:
  assumes "ends_ok s"
  shows "re_match True (Seq (Lit (uni ''#'')) (Seq (Rep 3 (Cls hex_cls))
            (Seq (Opt (Rep 3 (Cls hex_cls))) Dollar))) s \<longleftrightarrow> hex_color 3 s \<or> hex_color 6 s"
proof (cases s)
  case Nil
  then show ?thesis by (simp only: seq_hash hex_color_def) simp
next
  case (Cons c h)
  have e: "ends_ok h" using assms Cons ends_ok_tl by blast
  show ?thesis
    using hex_double [OF e, of 3] by (simp only: seq_hash hex_color_def Cons) auto
qed

lemma is_valid_color_iff:
  "is_valid_color v \<longleftrightarrow>
     (let s = strip v in
        hex_color 3 s \<or> hex_color 6 s \<or> hex_color 8 s \<or>
        ci_prefix (uni ''rgb('') s \<or> ci_prefix (uni ''rgba('') s \<or> ci_prefix (uni ''hsl('') s \<or>
        ci_prefix (uni ''hsla('') s \<or> ci_prefix (uni ''oklch('') s \<or>
        ci_prefix (uni ''color('') s \<or> ci_prefix (uni ''var(--'') s \<or>
        ci_equal (uni ''transparent'') s \<or> ci_equal (uni ''currentColor'') s \<or>
        ci_equal (uni ''inherit'') s)"
  unfolding is_valid_color_def color_patterns_def Let_def list_ex_Cons_iff list_ex_Nil_iff
    hex36 [OF ends_ok_strip] hexn [OF ends_ok_strip] lit_dollar [OF ends_ok_strip] lit_prefix
  by (simp only: disj_assoc simp_thms)

lemma hash_not_first:
  assumes "35 \<notin> set (ic_variants l)"
  shows "\<not> ci_prefix (l # ls) (35 # h)" and "\<not> ci_equal (l # ls) (35 # h)"
  using assms by (simp_all add: ci_prefix_def ci_equal_def)

lemma hex4_rejected:
  assumes "hex_color 4 (strip v)"
  shows "\<not> is_valid_color v"
proof -
  obtain h where s: "strip v = 35 # h" and l: "length h = 4"
    using assms by (auto simp: hex_color_def split: list.splits)
  have v: "35 \<notin> set (ic_variants 114)" "35 \<notin> set (ic_variants 104)" "35 \<notin> set (ic_variants 111)"
    "35 \<notin> set (ic_variants 99)" "35 \<notin> set (ic_variants 118)" "35 \<notin> set (ic_variants 116)"
    "35 \<notin> set (ic_variants 105)"
    by (simp_all add: ic_variants_def is_ascii_letter_def is_ascii_upper_def is_ascii_lower_def
        lower_ascii_def upper_ascii_def)
  have w: "uni ''rgb('' = 114 # uni ''gb(''" "uni ''rgba('' = 114 # uni ''gba(''"
    "uni ''hsl('' = 104 # uni ''sl(''" "uni ''hsla('' = 104 # uni ''sla(''"
    "uni ''oklch('' = 111 # uni ''klch(''" "uni ''color('' = 99 # uni ''olor(''"
    "uni ''var(--'' = 118 # uni ''ar(--''" "uni ''transparent'' = 116 # uni ''ransparent''"
    "uni ''currentColor'' = 99 # uni ''urrentColor''" "uni ''inherit'' = 105 # uni ''nherit''"
    by (simp_all add: uni_def)
  have "\<not> hex_color 3 (strip v)" "\<not> hex_color 6 (strip v)" "\<not> hex_color 8 (strip v)"
    using s l by (simp_all add: hex_color_def)
  moreover have "\<not> ci_prefix (uni ''rgb('') (strip v)" "\<not> ci_prefix (uni ''rgba('') (strip v)"
    "\<not> ci_prefix (uni ''hsl('') (strip v)" "\<not> ci_prefix (uni ''hsla('') (strip v)"
    "\<not> ci_prefix (uni ''oklch('') (strip v)" "\<not> ci_prefix (uni ''color('') (strip v)"
    "\<not> ci_prefix (uni ''var(--'') (strip v)"
    unfolding s w using hash_not_first(1) v by blast+
  moreover have "\<not> ci_equal (uni ''transparent'') (strip v)"
    "\<not> ci_equal (uni ''currentColor'') (strip v)" "\<not> ci_equal (uni ''inherit'') (strip v)"
    unfolding s w using hash_not_first(2) v by blast+
  ultimately show ?thesis
    by (simp only: is_valid_color_iff Let_def simp_thms not_False_eq_True)
qed

lemma color_error_in_validate:
  assumes "category t = ''color''"
  shows "color_error (value_t t) \<in> set (validate t) \<longleftrightarrow> \<not> is_valid_color (uni (value_t t))"
proof -
  have a: "''name is required'' \<noteq> color_error x" for x
    by (simp add: color_error_def)
  have b: "''name '' @ y \<noteq> color_error x" for x y
    by (simp add: color_error_def)
  have c: "''category '' @ y \<noteq> color_error x" for x y
    by (simp add: color_error_def)
  have d: "''value is required'' \<noteq> color_error x" for x
    by (simp add: color_error_def quote_def)
  show ?thesis
    unfolding validate_def using assms a b c d [of "value_t t"]
    by (auto simp: color_error_def)
qed

section \<open>The color validator\<close>

text \<open>
  C1, as the code has it. After stripping white space, \<open>_is_valid_color\<close> accepts exactly:
  a \<open>#\<close> with 3, 6 or 8 hexadecimal digits; a value that begins with \<open>rgb(\<close>, \<open>rgba(\<close>,
  \<open>hsl(\<close>, \<open>hsla(\<close>, \<open>oklch(\<close>, \<open>color(\<close> or \<open>var(--\<close>; and the words \<open>transparent\<close>,
  \<open>currentColor\<close>, \<open>inherit\<close>. In the prefixes and words a letter may be of either case,
  and, as \<open>re.IGNORECASE\<close> has it, the long s may stand for \<open>s\<close>, the capital I with dot
  above and the dotless i for \<open>i\<close>, and the Kelvin sign for \<open>k\<close>; \<open>tran\<close>, long s,
  \<open>parent\<close> is accepted, and so are \<open>inherit\<close> with either of the two other i,
  \<open>hsl(\<close> with the long s and \<open>oklch(\<close> with the Kelvin sign. A \<open>#\<close> with 4 hexadecimal digits is rejected. For a token of
  category color, \<open>validate\<close> reports the color error exactly when the value is rejected;
  \<open>blue\<close> and \<open>not-a-color\<close> are rejected.
\<close>

theorem is_valid_color_shapes:
  "(is_valid_color v \<longleftrightarrow>
     (let s = strip v in
        hex_color 3 s \<or> hex_color 6 s \<or> hex_color 8 s \<or>
        ci_prefix (uni ''rgb('') s \<or> ci_prefix (uni ''rgba('') s \<or> ci_prefix (uni ''hsl('') s \<or>
        ci_prefix (uni ''hsla('') s \<or> ci_prefix (uni ''oklch('') s \<or>
        ci_prefix (uni ''color('') s \<or> ci_prefix (uni ''var(--'') s \<or>
        ci_equal (uni ''transparent'') s \<or> ci_equal (uni ''currentColor'') s \<or>
        ci_equal (uni ''inherit'') s)) \<and>
   (hex_color 4 (strip v) \<longrightarrow> \<not> is_valid_color v) \<and>
   (category t = ''color'' \<longrightarrow>
      (color_error (value_t t) \<in> set (validate t) \<longleftrightarrow> \<not> is_valid_color (uni (value_t t)))) \<and>
   \<not> is_valid_color (uni ''blue'') \<and> \<not> is_valid_color (uni ''not-a-color'') \<and>
   is_valid_color (uni ''tran'' @ [383] @ uni ''parent'') \<and>
   is_valid_color ([304] @ uni ''nherit'') \<and> is_valid_color ([305] @ uni ''nherit'') \<and>
   is_valid_color (uni ''h'' @ [383] @ uni ''l(220,90%,60%)'') \<and>
   is_valid_color (uni ''o'' @ [8490] @ uni ''lch(0.6 0.1 250)'')"
proof -
  have "\<not> is_valid_color (uni ''blue'')" by code_simp
  moreover have "\<not> is_valid_color (uni ''not-a-color'')" by code_simp
  moreover have "is_valid_color (uni ''tran'' @ [383] @ uni ''parent'')" by code_simp
  moreover have "is_valid_color ([304] @ uni ''nherit'')" by code_simp
  moreover have "is_valid_color ([305] @ uni ''nherit'')" by code_simp
  moreover have "is_valid_color (uni ''h'' @ [383] @ uni ''l(220,90%,60%)'')" by code_simp
  moreover have "is_valid_color (uni ''o'' @ [8490] @ uni ''lch(0.6 0.1 250)'')" by code_simp
  ultimately show ?thesis
    using is_valid_color_iff [of v] hex4_rejected [of v] color_error_in_validate [of t]
    by blast
qed

text \<open>
  The theorem at the value \<open>#ABCD\<close> of a color token named \<open>color/brand\<close>: four
  hexadecimal digits, rejected, and the color error is among the errors of \<open>validate\<close>.
\<close>

theorem is_valid_color_shapes_witness:
  "hex_color 4 (strip (uni ''#ABCD'')) \<and> \<not> is_valid_color (uni ''#ABCD'') \<and>
   color_error ''#ABCD'' \<in> set (validate
     \<lparr>id_t = ''t1'', name = ''color/brand'', category = ''color'', value_t = ''#ABCD'',
      description = [], aliases = [], deprecated = False, deprecated_reason = [],
      tags = [], created_at = [], updated_at = [], version = 1\<rparr>)"
proof -
  have h: "hex_color 4 (strip (uni ''#ABCD''))" by code_simp
  show ?thesis
    using h is_valid_color_shapes [of "uni ''#ABCD''"
      "\<lparr>id_t = ''t1'', name = ''color/brand'', category = ''color'', value_t = ''#ABCD'',
        description = [], aliases = [], deprecated = False, deprecated_reason = [],
        tags = [], created_at = [], updated_at = [], version = 1\<rparr>"]
    by (simp only: Token.simps) blast
qed

text \<open>
  C1 as the specification states it fails at \<open>#abcd\<close>: the value is a \<open>#\<close> with four
  hexadecimal digits, and validating a color token that carries it reports exactly the
  color error.
\<close>

theorem four_digit_hex_counterexample:
  "hex_color 4 (uni ''#abcd'') \<and>
   validate
     \<lparr>id_t = ''t1'', name = ''color/brand'', category = ''color'', value_t = ''#abcd'',
      description = [], aliases = [], deprecated = False, deprecated_reason = [],
      tags = [], created_at = [], updated_at = [], version = 1\<rparr>
   = [color_error ''#abcd'']"
  by code_simp

section \<open>The camel-case key\<close>

lemma re_split_nonempty: "re_split s \<noteq> []"
  by (subst re_split.simps) (simp add: Let_def)

lemma re_split_unfold:
  "re_split s = (if dropWhile (\<lambda>c. \<not> is_sep c) s = [] then [takeWhile (\<lambda>c. \<not> is_sep c) s]
     else takeWhile (\<lambda>c. \<not> is_sep c) s # re_split (dropWhile is_sep (dropWhile (\<lambda>c. \<not> is_sep c) s)))"
  by (subst re_split.simps) (simp add: Let_def)

lemma re_split_plain:
  assumes "\<forall>c\<in>set p. \<not> is_sep c"
  shows "re_split p = [p]"
proof -
  have "takeWhile (\<lambda>c. \<not> is_sep c) p = p" "dropWhile (\<lambda>c. \<not> is_sep c) p = []"
    using assms by simp_all
  then show ?thesis by (subst re_split.simps) (simp add: Let_def)
qed

lemma re_split_run:
  assumes p: "\<forall>c\<in>set p. \<not> is_sep c" and r: "r \<noteq> []" "\<forall>c\<in>set r. is_sep c"
    and rest: "rest = [] \<or> \<not> is_sep (hd rest)"
  shows "re_split (p @ r @ rest) = p # re_split rest"
proof -
  obtain c cs where rc: "r = c # cs" using r(1) by (cases r) auto
  then have sc: "is_sep c" using r(2) by simp
  have t: "takeWhile (\<lambda>c. \<not> is_sep c) (p @ r @ rest) = p"
    using p sc by (simp add: rc)
  have d: "dropWhile (\<lambda>c. \<not> is_sep c) (p @ r @ rest) = r @ rest"
    using p sc by (simp add: rc)
  have "dropWhile is_sep rest = rest"
    using rest by (cases rest) auto
  then have e: "dropWhile is_sep (r @ rest) = rest"
    using r(2) by (simp add: dropWhile_append2)
  show ?thesis
    by (subst re_split.simps) (simp add: Let_def t d e r(1))
qed

lemma title_loop_upt:
  "title_loop db s [a..<b] prev =
     concat (map (\<lambda>i. if (if i = a then prev else cased db (s ! (i - 1)))
                       then lower_cp db s i else title_cp db (s ! i)) [a..<b])"
proof (induction "b - a" arbitrary: a prev)
  case 0
  then show ?case by simp
next
  case (Suc k)
  then have ab: "a < b" and k: "k = b - Suc a" by simp_all
  have u: "[a..<b] = a # [Suc a..<b]" using ab by (simp add: upt_rec)
  have ih: "title_loop db s [Suc a..<b] (cased db (s ! a)) =
     concat (map (\<lambda>i. if (if i = Suc a then cased db (s ! a) else cased db (s ! (i - 1)))
                       then lower_cp db s i else title_cp db (s ! i)) [Suc a..<b])"
    using Suc.hyps(1) [OF k] .
  have c: "map (\<lambda>i. if (if i = Suc a then cased db (s ! a) else cased db (s ! (i - 1)))
                       then lower_cp db s i else title_cp db (s ! i)) [Suc a..<b] =
           map (\<lambda>i. if (if i = a then prev else cased db (s ! (i - 1)))
                       then lower_cp db s i else title_cp db (s ! i)) [Suc a..<b]"
    by (rule map_cong) auto
  show ?case
    unfolding u by (simp add: ih c)
qed

lemma title_positions:
  "title db s =
     concat (map (\<lambda>i. if 0 < i \<and> cased db (s ! (i - 1))
                       then lower_cp db s i else title_cp db (s ! i)) [0..<length s])"
proof -
  have "map (\<lambda>i. if (if i = 0 then False else cased db (s ! (i - 1)))
                       then lower_cp db s i else title_cp db (s ! i)) [0..<length s] =
        map (\<lambda>i. if 0 < i \<and> cased db (s ! (i - 1))
                       then lower_cp db s i else title_cp db (s ! i)) [0..<length s]"
    by (rule map_cong) auto
  then show ?thesis
    by (simp only: title_def title_loop_upt)
qed

lemma lower_str_ascii:
  assumes "\<forall>c\<in>set s. c < 128"
  shows "lower_str db s = map lower_ascii s"
proof -
  have "map (lower_cp db s) [0..<length s] = map (\<lambda>i. [lower_ascii (s ! i)]) [0..<length s]"
    by (rule map_cong) (use assms in \<open>auto simp: lower_cp_def\<close>)
  then have "lower_str db s = map (\<lambda>i. lower_ascii (s ! i)) [0..<length s]"
    by (simp only: lower_str_def concat_map_singleton)
  also have "\<dots> = map lower_ascii (map (\<lambda>i. s ! i) [0..<length s])"
    by (simp add: o_def)
  also have "\<dots> = map lower_ascii s"
    by (simp only: map_nth)
  finally show ?thesis .
qed

lemma title_ascii:
  assumes "\<forall>c\<in>set s. c < 128"
  shows "title db s =
     map (\<lambda>i. if 0 < i \<and> is_ascii_letter (s ! (i - 1))
               then lower_ascii (s ! i) else upper_ascii (s ! i)) [0..<length s]"
proof -
  have a: "s ! i < 128" if "i < length s" for i
    using assms that by simp
  have "map (\<lambda>i. if 0 < i \<and> cased db (s ! (i - 1))
                       then lower_cp db s i else title_cp db (s ! i)) [0..<length s] =
        map (\<lambda>i. [if 0 < i \<and> is_ascii_letter (s ! (i - 1))
               then lower_ascii (s ! i) else upper_ascii (s ! i)]) [0..<length s]"
  proof (rule map_cong [OF refl])
    fix i assume "i \<in> set [0..<length s]"
    then have i: "i < length s" by simp
    then have "i - 1 < length s" by simp
    then show "(if 0 < i \<and> cased db (s ! (i - 1))
                       then lower_cp db s i else title_cp db (s ! i)) =
        [if 0 < i \<and> is_ascii_letter (s ! (i - 1))
               then lower_ascii (s ! i) else upper_ascii (s ! i)]"
      using a [of i] a [of "i - 1"] i by (simp add: cased_def lower_cp_def title_cp_def)
  qed
  then show ?thesis
    by (simp only: title_positions concat_map_singleton)
qed

lemma camel_parts:
  "\<exists>q qs. re_split n = q # qs \<and> camel db n = lower_str db q @ concat (map (title db) qs)"
proof -
  obtain q qs where e: "re_split n = q # qs"
    using re_split_nonempty [of n] by (cases "re_split n") auto
  then show ?thesis by (simp add: camel_def)
qed

text \<open>
  C9, as the code has it. \<open>_camel\<close> splits the name at every run of \<open>-\<close>, \<open>/\<close>, \<open>.\<close>
  and blank: a name without separators is one segment, and a separator-free segment
  followed by a run of separators is split off. The first segment is lower-cased and
  each later segment goes through \<open>str.title\<close>: the character at a position is
  lower-cased when the character before it is cased and title-cased otherwise, so also
  at the start and after a digit. For ASCII text that is: a letter after a letter is
  lower-cased, any other letter is upper-cased, and every other character stays. The
  letters after the first of a segment are not kept as they are. \<open>font-size\<close> gives
  \<open>fontSize\<close>, \<open>color/brand/primary\<close> gives \<open>colorBrandPrimary\<close> and
  \<open>typography/size/2xl\<close> gives \<open>typographySize2Xl\<close>.
\<close>

theorem camel_title_case:
  "((\<forall>c\<in>set p. \<not> is_sep c) \<longrightarrow> re_split p = [p]) \<and>
   ((\<forall>c\<in>set p. \<not> is_sep c) \<and> r \<noteq> [] \<and> (\<forall>c\<in>set r. is_sep c) \<and>
      (rest = [] \<or> \<not> is_sep (hd rest)) \<longrightarrow> re_split (p @ r @ rest) = p # re_split rest) \<and>
   (\<exists>q qs. re_split n = q # qs \<and> camel db n = lower_str db q @ concat (map (title db) qs)) \<and>
   title db s =
     concat (map (\<lambda>i. if 0 < i \<and> cased db (s ! (i - 1))
                       then lower_cp db s i else title_cp db (s ! i)) [0..<length s]) \<and>
   lower_str db s = concat (map (lower_cp db s) [0..<length s]) \<and>
   ((\<forall>c\<in>set s. c < 128) \<longrightarrow>
      lower_str db s = map lower_ascii s \<and>
      title db s =
        map (\<lambda>i. if 0 < i \<and> is_ascii_letter (s ! (i - 1))
                  then lower_ascii (s ! i) else upper_ascii (s ! i)) [0..<length s]) \<and>
   (is_ascii_letter c \<longleftrightarrow> (65 \<le> c \<and> c \<le> 90) \<or> (97 \<le> c \<and> c \<le> 122)) \<and>
   upper_ascii c = (if 97 \<le> c \<and> c \<le> 122 then c - 32 else c) \<and>
   lower_ascii c = (if 65 \<le> c \<and> c \<le> 90 then c + 32 else c) \<and>
   camel db (uni ''font-size'') = uni ''fontSize'' \<and>
   camel db (uni ''color/brand/primary'') = uni ''colorBrandPrimary'' \<and>
   camel db (uni ''typography/size/2xl'') = uni ''typographySize2Xl''"
proof -
  have e1: "camel db (uni ''font-size'') = uni ''fontSize''" by code_simp
  have e2: "camel db (uni ''color/brand/primary'') = uni ''colorBrandPrimary''" by code_simp
  have e3: "camel db (uni ''typography/size/2xl'') = uni ''typographySize2Xl''" by code_simp
  have d: "is_ascii_letter c \<longleftrightarrow> (65 \<le> c \<and> c \<le> 90) \<or> (97 \<le> c \<and> c \<le> 122)"
    "upper_ascii c = (if 97 \<le> c \<and> c \<le> 122 then c - 32 else c)"
    "lower_ascii c = (if 65 \<le> c \<and> c \<le> 90 then c + 32 else c)"
    by (simp_all add: is_ascii_letter_def is_ascii_upper_def is_ascii_lower_def
        upper_ascii_def lower_ascii_def)
  have l: "lower_str db s = concat (map (lower_cp db s) [0..<length s])"
    by (simp add: lower_str_def)
  show ?thesis
    using re_split_plain [of p] re_split_run [of p r rest] camel_parts [of n db]
      title_positions [of db s] l lower_str_ascii [of s db] title_ascii [of s db] d e1 e2 e3
    by (intro conjI impI) blast+
qed

text \<open>
  The theorem at the name \<open>size. /2xlBig\<close>: two segments around one run of three
  separators; in the second segment the letter after the digit is upper-cased and the
  capital after a letter is lower-cased.
\<close>

theorem camel_title_case_witness:
  "re_split (uni ''size. /2xlBig'') = [uni ''size'', uni ''2xlBig''] \<and>
   title plain_db (uni ''2xlBig'') = uni ''2Xlbig'' \<and>
   camel plain_db (uni ''size. /2xlBig'') = uni ''size2Xlbig''"
proof -
  have a: "\<forall>c\<in>set (uni ''size''). \<not> is_sep c" by code_simp
  have b: "uni ''. /'' \<noteq> []" "\<forall>c\<in>set (uni ''. /''). is_sep c" by code_simp+
  have c: "\<not> is_sep (hd (uni ''2xlBig''))" "\<forall>c\<in>set (uni ''2xlBig''). \<not> is_sep c" by code_simp+
  have d: "\<forall>c\<in>set (uni ''2xlBig''). c < 128" by code_simp
  have e: "uni ''size'' @ uni ''. /'' @ uni ''2xlBig'' = uni ''size. /2xlBig''"
    by (simp add: uni_def)
  have s1: "re_split (uni ''size. /2xlBig'') = uni ''size'' # re_split (uni ''2xlBig'')"
    using a b c
      camel_title_case [of "uni ''size''" "uni ''. /''" "uni ''2xlBig''" "[]" plain_db "[]" 0]
    unfolding e by blast
  have s2: "re_split (uni ''2xlBig'') = [uni ''2xlBig'']"
    using c camel_title_case [of "uni ''2xlBig''" "[]" "[]" "[]" plain_db "[]" 0] by blast
  have s: "re_split (uni ''size. /2xlBig'') = [uni ''size'', uni ''2xlBig'']"
    using s1 s2 by simp
  have t: "title plain_db (uni ''2xlBig'') =
        map (\<lambda>i. if 0 < i \<and> is_ascii_letter (uni ''2xlBig'' ! (i - 1))
                  then lower_ascii (uni ''2xlBig'' ! i) else upper_ascii (uni ''2xlBig'' ! i))
            [0..<length (uni ''2xlBig'')]"
    using d camel_title_case [of "[]" "[]" "[]" "[]" plain_db "uni ''2xlBig''" 0] by blast
  have v: "map (\<lambda>i. if 0 < i \<and> is_ascii_letter (uni ''2xlBig'' ! (i - 1))
                  then lower_ascii (uni ''2xlBig'' ! i) else upper_ascii (uni ''2xlBig'' ! i))
            [0..<length (uni ''2xlBig'')] = uni ''2Xlbig''"
    by code_simp
  have k: "camel plain_db (uni ''size. /2xlBig'') = uni ''size2Xlbig''" by code_simp
  show ?thesis using s t v k by simp
qed

text \<open>
  C9 as the specification states it fails at \<open>font-sizeXL\<close>: keeping the rest of the
  second segment unchanged would give \<open>fontSizeXL\<close>, and \<open>_camel\<close> returns \<open>fontSizexl\<close>.
\<close>

theorem camel_rest_unchanged_counterexample:
  "camel plain_db (uni ''font-sizeXL'') = uni ''fontSizexl'' \<and>
   spec_camelKey plain_db (uni ''font-sizeXL'') = uni ''fontSizeXL''"
  by code_simp

section \<open>Facts about the store\<close>

lemma split_comma_nonempty: "split_comma s \<noteq> []"
  by (induction s) (auto split: list.splits)

lemma join_Cons_Cons: "join sep ((c # p) # ps) = c # join sep (p # ps)"
  by (cases ps) auto

lemma join_split_comma: "join '','' (split_comma s) = s"
proof (induction s)
  case Nil
  show ?case by simp
next
  case (Cons c cs)
  obtain p ps where e: "split_comma cs = p # ps"
    using split_comma_nonempty [of cs] by (cases "split_comma cs") auto
  show ?case
  proof (cases "c = CHR '',''")
    case True
    then show ?thesis using Cons e by simp
  next
    case False
    then show ?thesis using Cons e by (simp add: join_Cons_Cons)
  qed
qed

lemma split_comma_free: "comma_free x \<Longrightarrow> split_comma x = [x]"
  by (induction x) (auto simp: comma_free_def)

lemma split_comma_append:
  "comma_free x \<Longrightarrow> split_comma (x @ CHR '','' # rest) = x # split_comma rest"
  by (induction x) (auto simp: comma_free_def)

lemma split_join_comma:
  assumes "xs \<noteq> []" "\<forall>x\<in>set xs. comma_free x"
  shows "split_comma (join '','' xs) = xs"
  using assms
proof (induction "'',''" xs rule: join.induct)
  case 1
  then show ?case by simp
next
  case (2 x)
  then show ?case by (simp add: split_comma_free)
next
  case (3 x y ys)
  then show ?case by (simp add: split_comma_append)
qed

lemma join_nonempty:
  assumes "xs \<noteq> []" "\<forall>x\<in>set xs. x \<noteq> []"
  shows "join sep xs \<noteq> []"
  using assms by (cases "(sep, xs)" rule: join.cases) auto

lemma stored_list_id:
  assumes "\<forall>x\<in>set xs. x \<noteq> [] \<and> comma_free x"
  shows "stored_list xs = xs"
proof (cases "xs = []")
  case True
  then show ?thesis by (simp add: stored_list_def)
next
  case False
  then show ?thesis
    using assms join_nonempty [of xs "'',''"] split_join_comma [of xs]
    by (simp add: stored_list_def)
qed

lemma stored_list_decode:
  "stored_list (if s \<noteq> [] then split_comma s else []) = (if s \<noteq> [] then split_comma s else [])"
  by (simp add: stored_list_def join_split_comma)

lemma find_append_new:
  "find P (xs @ [y]) = (case find P xs of Some x \<Rightarrow> Some x | None \<Rightarrow> if P y then Some y else None)"
  by (induction xs) auto

lemma lookup_new_row:
  assumes "\<forall>x\<in>set rows. col_id x \<noteq> col_id r"
  shows "lookup (rows @ [r]) (col_id r) = Some r"
proof -
  have "find (\<lambda>x. col_id x = col_id r) rows = None"
    using assms by (simp add: find_None_iff)
  then show ?thesis by (simp add: lookup_def find_append_new)
qed

lemma row_to_token_to_row:
  "row_to_token (token_to_row t) = t\<lparr>aliases := stored_list (aliases t), tags := stored_list (tags t)\<rparr>"
  by (simp add: row_to_token_def token_to_row_def stored_list_def)

lemma add_token_ok:
  assumes v: "validate t = []"
    and fresh: "\<forall>r\<in>set (tokens st). col_id r \<noteq> id_t t \<and> col_name r \<noteq> name t"
    and fit: "fits_int64 (version t)"
  shows "add_token st t now =
     (st\<lparr>tokens := tokens st @
         [token_to_row (t\<lparr>created_at := (if created_at t \<noteq> [] then created_at t else now),
                           updated_at := now\<rparr>)]\<rparr>,
      Inr (t\<lparr>created_at := (if created_at t \<noteq> [] then created_at t else now), updated_at := now\<rparr>))"
proof -
  have "\<not> list_ex (\<lambda>r. col_id r = id_t t \<or> col_name r = name t) (tokens st)"
    using fresh by (auto simp: list_ex_iff)
  then show ?thesis using v fit by (simp add: add_token_def Let_def)
qed

lemma update_token_invalid:
  assumes "lookup (tokens st) k = Some r"
    and "validate ((apply_patch p (row_to_token r))
           \<lparr>updated_at := now, version := version (apply_patch p (row_to_token r)) + 1\<rparr>) \<noteq> []"
  shows "update_token st k p now =
     (st, Inl (ValueError (''Validation failed: '' @ join ''; ''
        (validate ((apply_patch p (row_to_token r))
           \<lparr>updated_at := now, version := version (apply_patch p (row_to_token r)) + 1\<rparr>)))))"
  using assms by (simp add: update_token_def Let_def)

lemma ids_write_row:
  "map (\<lambda>x. (col_id x, col_name x, col_created_at x))
       (map (\<lambda>x. if c x then write_row t x else x) rows) =
   map (\<lambda>x. (col_id x, col_name x, col_created_at x)) rows"
  by (induction rows) (simp_all add: write_row_def)

lemma update_token_identity:
  assumes "update_token st k p now = (st', res)"
  shows "map (\<lambda>x. (col_id x, col_name x, col_created_at x)) (tokens st') =
         map (\<lambda>x. (col_id x, col_name x, col_created_at x)) (tokens st) \<and>
         token_snapshots st' = token_snapshots st"
proof (cases "lookup (tokens st) k")
  case None
  then show ?thesis using assms by (simp add: update_token_def)
next
  case (Some r)
  define token where "token = (apply_patch p (row_to_token r))
     \<lparr>updated_at := now, version := version (apply_patch p (row_to_token r)) + 1\<rparr>"
  have u: "update_token st k p now =
     (if validate token \<noteq> [] then
        (st, Inl (ValueError (''Validation failed: '' @ join ''; '' (validate token))))
      else if \<not> fits_int64 (version token) then (st, Inl OverflowError)
      else (st\<lparr>tokens := map (\<lambda>x. if col_id x = id_t token then write_row token x else x)
                                    (tokens st)\<rparr>, Inr token))"
    using Some by (simp add: update_token_def Let_def token_def)
  consider "st' = st" | "st' = st\<lparr>tokens := map (\<lambda>x. if col_id x = id_t token then write_row token x else x) (tokens st)\<rparr>"
    using assms u by (auto split: if_splits)
  then show ?thesis
  proof cases
    case 1
    then show ?thesis by simp
  next
    case 2
    have "tokens st' = map (\<lambda>x. if col_id x = id_t token then write_row token x else x) (tokens st)"
      "token_snapshots st' = token_snapshots st"
      using 2 by simp_all
    then show ?thesis by (simp only: ids_write_row simp_thms)
  qed
qed

lemma row_to_token_write_row:
  "row_to_token (write_row t x) =
     (row_to_token x)\<lparr>category := category t, value_t := value_t t, description := description t,
        aliases := stored_list (aliases t), deprecated := deprecated t,
        deprecated_reason := deprecated_reason t, tags := stored_list (tags t),
        updated_at := updated_at t, version := version t\<rparr>"
  by (simp add: row_to_token_def write_row_def stored_list_def)

lemma stored_list_row:
  "stored_list (aliases (row_to_token r)) = aliases (row_to_token r)"
  "stored_list (tags (row_to_token r)) = tags (row_to_token r)"
  using stored_list_decode by (simp_all add: row_to_token_def)

lemma update_token_success:
  assumes l: "lookup (tokens st) k = Some r" and n: "p_id p = None"
    and u: "update_token st k p now = (st', Inr t)"
  shows "map row_to_token (tokens st') =
     map (\<lambda>x. if id_t x = col_id r then
           (let old = row_to_token r in
            x\<lparr>category := (case p_category p of None \<Rightarrow> category old | Some v \<Rightarrow> v),
              value_t := (case p_value p of None \<Rightarrow> value_t old | Some v \<Rightarrow> v),
              description := (case p_description p of None \<Rightarrow> description old | Some v \<Rightarrow> v),
              aliases := (case p_aliases p of None \<Rightarrow> aliases old | Some v \<Rightarrow> stored_list v),
              deprecated := (case p_deprecated p of None \<Rightarrow> deprecated old | Some v \<Rightarrow> v),
              deprecated_reason :=
                (case p_deprecated_reason p of None \<Rightarrow> deprecated_reason old | Some v \<Rightarrow> v),
              tags := (case p_tags p of None \<Rightarrow> tags old | Some v \<Rightarrow> stored_list v),
              updated_at := now,
              version := (case p_version p of None \<Rightarrow> version old | Some v \<Rightarrow> v) + 1\<rparr>)
          else x)
         (map row_to_token (tokens st))"
proof -
  define token where "token = (apply_patch p (row_to_token r))
     \<lparr>updated_at := now, version := version (apply_patch p (row_to_token r)) + 1\<rparr>"
  have e: "update_token st k p now =
     (if validate token \<noteq> [] then
        (st, Inl (ValueError (''Validation failed: '' @ join ''; '' (validate token))))
      else if \<not> fits_int64 (version token) then (st, Inl OverflowError)
      else (st\<lparr>tokens := map (\<lambda>x. if col_id x = id_t token then write_row token x else x)
                                    (tokens st)\<rparr>, Inr token))"
    using l by (simp add: update_token_def Let_def token_def)
  have st': "tokens st' = map (\<lambda>x. if col_id x = id_t token then write_row token x else x) (tokens st)"
    using u e by (auto split: if_splits)
  have i: "id_t token = col_id r"
    using n by (simp add: token_def apply_patch_def pick_def row_to_token_def)
  have al: "stored_list (aliases token) =
      (case p_aliases p of None \<Rightarrow> aliases (row_to_token r) | Some v \<Rightarrow> stored_list v)"
    by (cases "p_aliases p") (simp_all add: token_def apply_patch_def pick_def stored_list_row)
  have tg: "stored_list (tags token) =
      (case p_tags p of None \<Rightarrow> tags (row_to_token r) | Some v \<Rightarrow> stored_list v)"
    by (cases "p_tags p") (simp_all add: token_def apply_patch_def pick_def stored_list_row)
  have f: "category token = (case p_category p of None \<Rightarrow> category (row_to_token r) | Some v \<Rightarrow> v)"
    "value_t token = (case p_value p of None \<Rightarrow> value_t (row_to_token r) | Some v \<Rightarrow> v)"
    "description token = (case p_description p of None \<Rightarrow> description (row_to_token r) | Some v \<Rightarrow> v)"
    "deprecated token = (case p_deprecated p of None \<Rightarrow> deprecated (row_to_token r) | Some v \<Rightarrow> v)"
    "deprecated_reason token =
       (case p_deprecated_reason p of None \<Rightarrow> deprecated_reason (row_to_token r) | Some v \<Rightarrow> v)"
    "updated_at token = now"
    "version token = (case p_version p of None \<Rightarrow> version (row_to_token r) | Some v \<Rightarrow> v) + 1"
    by (simp_all add: token_def apply_patch_def pick_def)
  have w: "row_to_token (if col_id x = id_t token then write_row token x else x) =
      (if id_t (row_to_token x) = col_id r then
           (let old = row_to_token r in
            (row_to_token x)\<lparr>category := (case p_category p of None \<Rightarrow> category old | Some v \<Rightarrow> v),
              value_t := (case p_value p of None \<Rightarrow> value_t old | Some v \<Rightarrow> v),
              description := (case p_description p of None \<Rightarrow> description old | Some v \<Rightarrow> v),
              aliases := (case p_aliases p of None \<Rightarrow> aliases old | Some v \<Rightarrow> stored_list v),
              deprecated := (case p_deprecated p of None \<Rightarrow> deprecated old | Some v \<Rightarrow> v),
              deprecated_reason :=
                (case p_deprecated_reason p of None \<Rightarrow> deprecated_reason old | Some v \<Rightarrow> v),
              tags := (case p_tags p of None \<Rightarrow> tags old | Some v \<Rightarrow> stored_list v),
              updated_at := now,
              version := (case p_version p of None \<Rightarrow> version old | Some v \<Rightarrow> v) + 1\<rparr>)
          else row_to_token x)" for x
  proof (cases "col_id x = col_id r")
    case True
    have "id_t (row_to_token x) = col_id r" using True by (simp add: row_to_token_def)
    then show ?thesis
      using True by (simp only: i simp_thms if_True row_to_token_write_row al tg f Let_def)
  next
    case False
    have "id_t (row_to_token x) \<noteq> col_id r" using False by (simp add: row_to_token_def)
    then show ?thesis using False by (simp only: i simp_thms if_False)
  qed
  show ?thesis
    unfolding st' map_map o_def w ..
qed

lemma snapshots_add_token: "token_snapshots (fst (add_token st t now)) = token_snapshots st"
  by (simp add: add_token_def Let_def)

lemma snapshots_update_token: "token_snapshots (fst (update_token st k p now)) = token_snapshots st"
  using update_token_identity [of st k p now "fst (update_token st k p now)" "snd (update_token st k p now)"]
  by simp

lemma snapshots_delete_token: "token_snapshots (fst (delete_token st k)) = token_snapshots st"
  by (simp add: delete_token_def)

lemma snapshots_apply_op: "token_snapshots (apply_op st x) = token_snapshots st"
  by (cases x) (simp_all add: snapshots_add_token snapshots_update_token snapshots_delete_token)

lemma snapshots_run_ops: "token_snapshots (run_ops st ops) = token_snapshots st"
  unfolding run_ops_def
  by (induction ops arbitrary: st) (simp_all add: snapshots_apply_op)

lemma load_snapshot_new:
  assumes "\<forall>s\<in>set snaps. snap_id s \<noteq> sid \<and> snap_version s \<noteq> sid"
    and "snap_id x = sid"
  shows "find (\<lambda>r. snap_id r = sid \<or> snap_version r = sid) (snaps @ [x]) = Some x"
proof -
  have "find (\<lambda>r. snap_id r = sid \<or> snap_version r = sid) snaps = None"
    using assms(1) by (simp add: find_None_iff)
  then show ?thesis using assms(2) by (simp add: find_append_new)
qed

section \<open>Facts about the diff\<close>

lemma diff_loop_changed:
  assumes "distinct (map fst a)"
  shows "map_of (fst (diff_loop a b (chg, u))) n =
     (case map_of a n of
        None \<Rightarrow> map_of chg n
      | Some ta \<Rightarrow>
         (case map_of b n of
            None \<Rightarrow> map_of chg n
          | Some tb \<Rightarrow>
             if value_t ta \<noteq> value_t tb \<or> category ta \<noteq> category tb \<or> deprecated ta \<noteq> deprecated tb
             then Some \<lparr>before_value = value_t ta, before_category = category ta,
                        before_deprecated = deprecated ta,
                        after_value = value_t tb, after_category = category tb,
                        after_deprecated = deprecated tb\<rparr>
             else map_of chg n))"
  using assms
proof (induction a arbitrary: chg u)
  case Nil
  show ?case by simp
next
  case (Cons x rest)
  obtain m ta where x: "x = (m, ta)" by (cases x)
  have d: "distinct (map fst rest)" and nm: "m \<notin> fst ` set rest" using Cons.prems x by auto
  have none: "map_of rest m = None" using nm by (simp add: map_of_eq_None_iff)
  note ih = Cons.IH [OF d]
  show ?case
  proof (cases "n = m")
    case True
    have none': "map_of rest n = None" using none True by simp
    have xn: "x = (n, ta)" using x True by simp
    show ?thesis
      unfolding xn
      by (cases "map_of b n") (simp_all add: ih none' update_conv')
  next
    case False
    show ?thesis
      unfolding x using False
      by (cases "map_of b m") (simp_all add: ih update_conv' split: option.splits)
  qed
qed

lemma diff_loop_unchanged:
  "snd (diff_loop a b (chg, u)) = u + length (filter
       (\<lambda>(m, x). case map_of b m of None \<Rightarrow> False
          | Some y \<Rightarrow> value_t x = value_t y \<and> category x = category y \<and> deprecated x = deprecated y) a)"
proof (induction a arbitrary: chg u)
  case Nil
  show ?case by simp
next
  case (Cons x rest)
  obtain m ta where x: "x = (m, ta)" by (cases x)
  show ?case
    unfolding x by (cases "map_of b m") (auto simp: Cons.IH)
qed









section \<open>Adding a token\<close>

text \<open>
  C3, as the code has it. For a valid token whose id and name are both absent from the
  table, and whose version fits an SQLite integer, \<open>add_token\<close> appends one row and
  returns the token: \<open>updated_at\<close> is the current time, \<open>created_at\<close> is the current
  time when the caller left it empty and the caller's value otherwise, the version and
  the id are the caller's, and looking the id up finds the new row.
\<close>

theorem add_token_stores:
  assumes "validate t = []"
    and "\<forall>r\<in>set (tokens st). col_id r \<noteq> id_t t \<and> col_name r \<noteq> name t"
    and "fits_int64 (version t)"
  shows "\<exists>st' t'. add_token st t now = (st', Inr t') \<and>
           id_t t' = id_t t \<and> version t' = version t \<and> updated_at t' = now \<and>
           created_at t' = (if created_at t = [] then now else created_at t) \<and>
           t' = t\<lparr>created_at := created_at t', updated_at := now\<rparr> \<and>
           tokens st' = tokens st @ [token_to_row t'] \<and>
           token_snapshots st' = token_snapshots st \<and>
           lookup (tokens st') (id_t t) = Some (token_to_row t')"
proof -
  define t' where "t' = t\<lparr>created_at := (if created_at t \<noteq> [] then created_at t else now), updated_at := now\<rparr>"
  define st' where "st' = st\<lparr>tokens := tokens st @ [token_to_row t']\<rparr>"
  have a: "add_token st t now = (st', Inr t')"
    unfolding st'_def t'_def using assms by (rule add_token_ok)
  have i: "col_id (token_to_row t') = id_t t" by (simp add: token_to_row_def t'_def)
  have "\<forall>x\<in>set (tokens st). col_id x \<noteq> col_id (token_to_row t')"
    using assms(2) i by simp
  then have l: "lookup (tokens st @ [token_to_row t']) (col_id (token_to_row t')) = Some (token_to_row t')"
    by (rule lookup_new_row)
  have "lookup (tokens st') (id_t t) = Some (token_to_row t')"
    using l i by (simp add: st'_def)
  moreover have "t' = t\<lparr>created_at := created_at t', updated_at := now\<rparr>"
    by (simp add: t'_def)
  moreover have "created_at t' = (if created_at t = [] then now else created_at t)"
    by (simp add: t'_def)
  ultimately show ?thesis
    using a by (intro exI [of _ st'] exI [of _ t']) (simp add: t'_def st'_def)
qed

text \<open>
  The theorem at a token with no \<open>created_at\<close> and version 1, added to the empty
  store.
\<close>

theorem add_token_stores_witness:
  "\<exists>st' t'. add_token empty_store
       \<lparr>id_t = ''t1'', name = ''color/brand'', category = ''color'', value_t = ''#3b82f6'',
        description = ''Brand'', aliases = [], deprecated = False, deprecated_reason = [],
        tags = [], created_at = [], updated_at = [], version = 1\<rparr> ''2026-11-03T10:00:00''
       = (st', Inr t') \<and>
     id_t t' = ''t1'' \<and> version t' = 1 \<and> updated_at t' = ''2026-11-03T10:00:00'' \<and>
     created_at t' = ''2026-11-03T10:00:00'' \<and>
     lookup (tokens st') ''t1'' = Some (token_to_row t')"
proof -
  let ?t = "\<lparr>id_t = ''t1'', name = ''color/brand'', category = ''color'', value_t = ''#3b82f6'',
        description = ''Brand'', aliases = [], deprecated = False, deprecated_reason = [],
        tags = [], created_at = [], updated_at = [], version = 1\<rparr>"
  have h1: "validate ?t = []" by code_simp
  have h2: "\<forall>r\<in>set (tokens empty_store). col_id r \<noteq> id_t ?t \<and> col_name r \<noteq> name ?t"
    by (simp add: empty_store_def)
  have h3: "fits_int64 (version ?t)" by (simp add: fits_int64_def)
  show ?thesis
    using add_token_stores [OF h1 h2 h3, of "''2026-11-03T10:00:00''"] by auto
qed

text \<open>
  C3 as the specification states it fails for a valid token with an absent name that
  carries \<open>created_at\<close> and version 3: the row keeps the caller's \<open>created_at\<close>, not
  the current time, and version 3, not 1. And a valid token with an absent name whose
  id is already in the table is not stored: the INSERT fails on the primary key.
\<close>

theorem add_token_caller_fields_counterexample:
  "validate
     \<lparr>id_t = ''t1'', name = ''color/brand'', category = ''color'', value_t = ''#3b82f6'',
      description = ''Brand'', aliases = [], deprecated = False, deprecated_reason = [],
      tags = [], created_at = ''2020-01-01T00:00:00'', updated_at = [], version = 3\<rparr> = [] \<and>
   add_token empty_store
     \<lparr>id_t = ''t1'', name = ''color/brand'', category = ''color'', value_t = ''#3b82f6'',
      description = ''Brand'', aliases = [], deprecated = False, deprecated_reason = [],
      tags = [], created_at = ''2020-01-01T00:00:00'', updated_at = [], version = 3\<rparr>
     ''2026-11-03T10:00:00''
   = (\<lparr>tokens =
        [\<lparr>col_id = ''t1'', col_name = ''color/brand'', col_category = ''color'',
          col_value = ''#3b82f6'', col_description = ''Brand'', col_aliases = [],
          col_deprecated = 0, col_deprecated_reason = [], col_tags = [],
          col_created_at = ''2020-01-01T00:00:00'', col_updated_at = ''2026-11-03T10:00:00'',
          col_version = 3\<rparr>],
       token_snapshots = []\<rparr>,
      Inr \<lparr>id_t = ''t1'', name = ''color/brand'', category = ''color'', value_t = ''#3b82f6'',
        description = ''Brand'', aliases = [], deprecated = False, deprecated_reason = [],
        tags = [], created_at = ''2020-01-01T00:00:00'', updated_at = ''2026-11-03T10:00:00'',
        version = 3\<rparr>) \<and>
   add_token
     \<lparr>tokens =
        [\<lparr>col_id = ''t1'', col_name = ''color/brand'', col_category = ''color'',
          col_value = ''#3b82f6'', col_description = ''Brand'', col_aliases = [],
          col_deprecated = 0, col_deprecated_reason = [], col_tags = [],
          col_created_at = ''2020-01-01T00:00:00'', col_updated_at = ''2026-11-03T10:00:00'',
          col_version = 3\<rparr>],
       token_snapshots = []\<rparr>
     \<lparr>id_t = ''t1'', name = ''color/accent'', category = ''color'', value_t = ''#ff0000'',
      description = [], aliases = [], deprecated = False, deprecated_reason = [],
      tags = [], created_at = [], updated_at = [], version = 1\<rparr>
     ''2026-11-03T11:00:00''
   = (\<lparr>tokens =
        [\<lparr>col_id = ''t1'', col_name = ''color/brand'', col_category = ''color'',
          col_value = ''#3b82f6'', col_description = ''Brand'', col_aliases = [],
          col_deprecated = 0, col_deprecated_reason = [], col_tags = [],
          col_created_at = ''2020-01-01T00:00:00'', col_updated_at = ''2026-11-03T10:00:00'',
          col_version = 3\<rparr>],
       token_snapshots = []\<rparr>,
      Inl (ValueError (''Token with name '' @ quote @ ''color/accent'' @ quote @
                       '' already exists'')))"
  by code_simp

text \<open>
  C10. For a valid token that \<open>add_token\<close> can insert (id and name absent, version in
  range) whose aliases and tags are lists of non-empty strings without commas, the
  empty list included, \<open>get_token\<close> by id after \<open>add_token\<close> returns the token that
  \<open>add_token\<close> returned, with aliases and tags equal to those given.
\<close>

theorem aliases_tags_round_trip:
  assumes "validate t = []"
    and "\<forall>r\<in>set (tokens st). col_id r \<noteq> id_t t \<and> col_name r \<noteq> name t"
    and "fits_int64 (version t)"
    and "\<forall>a\<in>set (aliases t). a \<noteq> [] \<and> comma_free a"
    and "\<forall>g\<in>set (tags t). g \<noteq> [] \<and> comma_free g"
  shows "\<exists>st' t' got. add_token st t now = (st', Inr t') \<and>
           get_token st' (id_t t) = Some got \<and>
           aliases got = aliases t \<and> tags got = tags t \<and> got = t'"
proof -
  define t' where "t' = t\<lparr>created_at := (if created_at t \<noteq> [] then created_at t else now), updated_at := now\<rparr>"
  define st' where "st' = st\<lparr>tokens := tokens st @ [token_to_row t']\<rparr>"
  have a: "add_token st t now = (st', Inr t')"
    unfolding st'_def t'_def using assms(1-3) by (rule add_token_ok)
  have i: "col_id (token_to_row t') = id_t t" by (simp add: token_to_row_def t'_def)
  have "\<forall>x\<in>set (tokens st). col_id x \<noteq> col_id (token_to_row t')"
    using assms(2) i by simp
  then have "lookup (tokens st @ [token_to_row t']) (col_id (token_to_row t')) = Some (token_to_row t')"
    by (rule lookup_new_row)
  then have g: "get_token st' (id_t t) = Some (row_to_token (token_to_row t'))"
    using i by (simp add: get_token_def st'_def)
  have s: "stored_list (aliases t') = aliases t" "stored_list (tags t') = tags t"
    using assms(4,5) stored_list_id by (simp_all add: t'_def)
  have r: "row_to_token (token_to_row t') = t'"
    unfolding row_to_token_to_row s by (simp add: t'_def)
  show ?thesis
    using a g r by (intro exI [of _ st'] exI [of _ t'] exI [of _ t']) (simp add: t'_def)
qed

text \<open>
  The theorem at a token with two aliases and no tags, added to the empty store.
\<close>

theorem aliases_tags_round_trip_witness:
  "\<exists>st' t' got. add_token empty_store
       \<lparr>id_t = ''t1'', name = ''color/brand'', category = ''color'', value_t = ''#3b82f6'',
        description = ''Brand'', aliases = [''primary'', ''accent''], deprecated = False,
        deprecated_reason = [], tags = [], created_at = [], updated_at = [], version = 1\<rparr>
       ''2026-11-03T10:00:00'' = (st', Inr t') \<and>
     get_token st' ''t1'' = Some got \<and>
     aliases got = [''primary'', ''accent''] \<and> tags got = []"
proof -
  let ?t = "\<lparr>id_t = ''t1'', name = ''color/brand'', category = ''color'', value_t = ''#3b82f6'',
        description = ''Brand'', aliases = [''primary'', ''accent''], deprecated = False,
        deprecated_reason = [], tags = [], created_at = [], updated_at = [], version = 1\<rparr>"
  have h1: "validate ?t = []" by code_simp
  have h2: "\<forall>r\<in>set (tokens empty_store). col_id r \<noteq> id_t ?t \<and> col_name r \<noteq> name ?t"
    by (simp add: empty_store_def)
  have h3: "fits_int64 (version ?t)" by (simp add: fits_int64_def)
  have h4: "\<forall>a\<in>set (aliases ?t). a \<noteq> [] \<and> comma_free a" by (simp add: comma_free_def)
  have h5: "\<forall>g\<in>set (tags ?t). g \<noteq> [] \<and> comma_free g" by simp
  show ?thesis
    using aliases_tags_round_trip [OF h1 h2 h3 h4 h5, of "''2026-11-03T10:00:00''"] by auto
qed

section \<open>Updating a token\<close>

text \<open>
  C4. When the token found for the key becomes invalid under the patch,
  \<open>update_token\<close> returns a ValueError and the store it leaves is the store it was
  given; \<open>get_token\<close> still returns the old token.
\<close>

theorem update_token_all_or_nothing:
  assumes "lookup (tokens st) k = Some r"
    and "validate ((apply_patch p (row_to_token r))
           \<lparr>updated_at := now, version := version (apply_patch p (row_to_token r)) + 1\<rparr>) \<noteq> []"
  shows "\<exists>m. update_token st k p now = (st, Inl (ValueError m)) \<and>
           get_token (fst (update_token st k p now)) k = Some (row_to_token r)"
proof -
  have "get_token st k = Some (row_to_token r)" using assms(1) by (simp add: get_token_def)
  then show ?thesis using update_token_invalid [OF assms] by simp
qed

text \<open>
  The theorem at a color token and a patch that sets the value \<open>blue\<close> and a new
  description.
\<close>

theorem update_token_all_or_nothing_witness:
  "\<exists>m. update_token
      \<lparr>tokens = [\<lparr>col_id = ''t1'', col_name = ''color/brand'', col_category = ''color'',
          col_value = ''#3b82f6'', col_description = ''Brand'', col_aliases = [],
          col_deprecated = 0, col_deprecated_reason = [], col_tags = [],
          col_created_at = ''2026-11-03T10:00:00'', col_updated_at = ''2026-11-03T10:00:00'',
          col_version = 1\<rparr>], token_snapshots = []\<rparr>
      ''color/brand''
      \<lparr>p_id = None, p_name = None, p_category = None, p_value = Some ''blue'',
       p_description = Some ''Changed'', p_aliases = None, p_deprecated = None,
       p_deprecated_reason = None, p_tags = None, p_created_at = None, p_updated_at = None,
       p_version = None\<rparr>
      ''2026-11-04T09:00:00''
    = (\<lparr>tokens = [\<lparr>col_id = ''t1'', col_name = ''color/brand'', col_category = ''color'',
          col_value = ''#3b82f6'', col_description = ''Brand'', col_aliases = [],
          col_deprecated = 0, col_deprecated_reason = [], col_tags = [],
          col_created_at = ''2026-11-03T10:00:00'', col_updated_at = ''2026-11-03T10:00:00'',
          col_version = 1\<rparr>], token_snapshots = []\<rparr>,
       Inl (ValueError m))"
proof -
  let ?r = "\<lparr>col_id = ''t1'', col_name = ''color/brand'', col_category = ''color'',
          col_value = ''#3b82f6'', col_description = ''Brand'', col_aliases = [],
          col_deprecated = 0, col_deprecated_reason = [], col_tags = [],
          col_created_at = ''2026-11-03T10:00:00'', col_updated_at = ''2026-11-03T10:00:00'',
          col_version = 1\<rparr>"
  let ?st = "\<lparr>tokens = [?r], token_snapshots = []\<rparr>"
  let ?p = "\<lparr>p_id = None, p_name = None, p_category = None, p_value = Some ''blue'',
       p_description = Some ''Changed'', p_aliases = None, p_deprecated = None,
       p_deprecated_reason = None, p_tags = None, p_created_at = None, p_updated_at = None,
       p_version = None\<rparr>"
  have h1: "lookup (tokens ?st) ''color/brand'' = Some ?r" by code_simp
  have h2: "validate ((apply_patch ?p (row_to_token ?r))
           \<lparr>updated_at := ''2026-11-04T09:00:00'',
             version := version (apply_patch ?p (row_to_token ?r)) + 1\<rparr>) \<noteq> []"
    by code_simp
  show ?thesis
    using update_token_all_or_nothing [OF h1 h2] by blast
qed

text \<open>
  C2, as the code has it. Whatever the patch and the outcome, \<open>update_token\<close> leaves
  the id, name and \<open>created_at\<close> of every row and all snapshots as they were. When the
  patch supplies no id and the update succeeds, the tokens read back from the table are
  those from before, except that the token found has category, value, description,
  aliases, deprecated, deprecated_reason and tags replaced where the patch supplies them
  (lists as they read back from their comma-joined column), \<open>updated_at\<close> set to the
  current time and the version, supplied or old, increased by one.
\<close>

theorem update_token_frame:
  "(update_token st k p now = (st', res) \<longrightarrow>
      map (\<lambda>x. (col_id x, col_name x, col_created_at x)) (tokens st') =
      map (\<lambda>x. (col_id x, col_name x, col_created_at x)) (tokens st) \<and>
      token_snapshots st' = token_snapshots st) \<and>
   (lookup (tokens st) k = Some r \<and> p_id p = None \<and> update_token st k p now = (st', Inr t) \<longrightarrow>
      map row_to_token (tokens st') =
      map (\<lambda>x. if id_t x = col_id r then
           (let old = row_to_token r in
            x\<lparr>category := (case p_category p of None \<Rightarrow> category old | Some v \<Rightarrow> v),
              value_t := (case p_value p of None \<Rightarrow> value_t old | Some v \<Rightarrow> v),
              description := (case p_description p of None \<Rightarrow> description old | Some v \<Rightarrow> v),
              aliases := (case p_aliases p of None \<Rightarrow> aliases old | Some v \<Rightarrow> stored_list v),
              deprecated := (case p_deprecated p of None \<Rightarrow> deprecated old | Some v \<Rightarrow> v),
              deprecated_reason :=
                (case p_deprecated_reason p of None \<Rightarrow> deprecated_reason old | Some v \<Rightarrow> v),
              tags := (case p_tags p of None \<Rightarrow> tags old | Some v \<Rightarrow> stored_list v),
              updated_at := now,
              version := (case p_version p of None \<Rightarrow> version old | Some v \<Rightarrow> v) + 1\<rparr>)
          else x)
         (map row_to_token (tokens st)))"
proof (intro conjI impI)
  assume "update_token st k p now = (st', res)"
  then show "map (\<lambda>x. (col_id x, col_name x, col_created_at x)) (tokens st') =
      map (\<lambda>x. (col_id x, col_name x, col_created_at x)) (tokens st)"
    and "token_snapshots st' = token_snapshots st"
    using update_token_identity by blast+
next
  assume a: "lookup (tokens st) k = Some r \<and> p_id p = None \<and> update_token st k p now = (st', Inr t)"
  show "map row_to_token (tokens st') =
      map (\<lambda>x. if id_t x = col_id r then
           (let old = row_to_token r in
            x\<lparr>category := (case p_category p of None \<Rightarrow> category old | Some v \<Rightarrow> v),
              value_t := (case p_value p of None \<Rightarrow> value_t old | Some v \<Rightarrow> v),
              description := (case p_description p of None \<Rightarrow> description old | Some v \<Rightarrow> v),
              aliases := (case p_aliases p of None \<Rightarrow> aliases old | Some v \<Rightarrow> stored_list v),
              deprecated := (case p_deprecated p of None \<Rightarrow> deprecated old | Some v \<Rightarrow> v),
              deprecated_reason :=
                (case p_deprecated_reason p of None \<Rightarrow> deprecated_reason old | Some v \<Rightarrow> v),
              tags := (case p_tags p of None \<Rightarrow> tags old | Some v \<Rightarrow> stored_list v),
              updated_at := now,
              version := (case p_version p of None \<Rightarrow> version old | Some v \<Rightarrow> v) + 1\<rparr>)
          else x)
         (map row_to_token (tokens st))"
    by (rule update_token_success) (use a in blast)+
qed

text \<open>
  The theorem at a store of two tokens and a patch that supplies a value and tags: the
  aliases, the description and the second token stay as they were.
\<close>

theorem update_token_frame_witness:
  "map row_to_token (tokens (fst (update_token
      \<lparr>tokens = [\<lparr>col_id = ''t1'', col_name = ''color/brand'', col_category = ''color'',
          col_value = ''#3b82f6'', col_description = ''Brand'', col_aliases = ''primary,accent'',
          col_deprecated = 0, col_deprecated_reason = [], col_tags = [],
          col_created_at = ''2026-11-03T10:00:00'', col_updated_at = ''2026-11-03T10:00:00'',
          col_version = 1\<rparr>,
         \<lparr>col_id = ''t2'', col_name = ''spacing/4'', col_category = ''spacing'',
          col_value = ''16px'', col_description = [], col_aliases = [],
          col_deprecated = 0, col_deprecated_reason = [], col_tags = [],
          col_created_at = ''2026-11-03T10:00:00'', col_updated_at = ''2026-11-03T10:00:00'',
          col_version = 1\<rparr>], token_snapshots = []\<rparr>
      ''color/brand''
      \<lparr>p_id = None, p_name = None, p_category = None, p_value = Some ''#000000'',
       p_description = None, p_aliases = None, p_deprecated = None,
       p_deprecated_reason = None, p_tags = Some [''ui''], p_created_at = None,
       p_updated_at = None, p_version = None\<rparr>
      ''2026-11-04T09:00:00''))) =
   [\<lparr>id_t = ''t1'', name = ''color/brand'', category = ''color'', value_t = ''#000000'',
     description = ''Brand'', aliases = [''primary'', ''accent''], deprecated = False,
     deprecated_reason = [], tags = [''ui''], created_at = ''2026-11-03T10:00:00'',
     updated_at = ''2026-11-04T09:00:00'', version = 2\<rparr>,
    \<lparr>id_t = ''t2'', name = ''spacing/4'', category = ''spacing'', value_t = ''16px'',
     description = [], aliases = [], deprecated = False,
     deprecated_reason = [], tags = [], created_at = ''2026-11-03T10:00:00'',
     updated_at = ''2026-11-03T10:00:00'', version = 1\<rparr>]"
proof -
  let ?r = "\<lparr>col_id = ''t1'', col_name = ''color/brand'', col_category = ''color'',
          col_value = ''#3b82f6'', col_description = ''Brand'', col_aliases = ''primary,accent'',
          col_deprecated = 0, col_deprecated_reason = [], col_tags = [],
          col_created_at = ''2026-11-03T10:00:00'', col_updated_at = ''2026-11-03T10:00:00'',
          col_version = 1\<rparr>"
  let ?r2 = "\<lparr>col_id = ''t2'', col_name = ''spacing/4'', col_category = ''spacing'',
          col_value = ''16px'', col_description = [], col_aliases = [],
          col_deprecated = 0, col_deprecated_reason = [], col_tags = [],
          col_created_at = ''2026-11-03T10:00:00'', col_updated_at = ''2026-11-03T10:00:00'',
          col_version = 1\<rparr>"
  let ?st = "\<lparr>tokens = [?r, ?r2], token_snapshots = []\<rparr>"
  let ?p = "\<lparr>p_id = None, p_name = None, p_category = None, p_value = Some ''#000000'',
       p_description = None, p_aliases = None, p_deprecated = None,
       p_deprecated_reason = None, p_tags = Some [''ui''], p_created_at = None,
       p_updated_at = None, p_version = None\<rparr>"
  let ?u = "update_token ?st ''color/brand'' ?p ''2026-11-04T09:00:00''"
  let ?t = "\<lparr>id_t = ''t1'', name = ''color/brand'', category = ''color'', value_t = ''#000000'',
     description = ''Brand'', aliases = [''primary'', ''accent''], deprecated = False,
     deprecated_reason = [], tags = [''ui''], created_at = ''2026-11-03T10:00:00'',
     updated_at = ''2026-11-04T09:00:00'', version = 2\<rparr>"
  have h1: "lookup (tokens ?st) ''color/brand'' = Some ?r" by code_simp
  have h2: "p_id ?p = None" by simp
  have "snd ?u = Inr ?t" by code_simp
  then have h3: "?u = (fst ?u, Inr ?t)" by (simp add: prod_eq_iff)
  note eq = update_token_frame [THEN conjunct2, THEN mp, OF conjI [OF h1 conjI [OF h2 h3]]]
  show ?thesis by (subst eq) code_simp
qed

text \<open>
  C2 as the specification states it fails for a patch that supplies a category: the
  stored category changes from \<open>color\<close> to \<open>border\<close>.
\<close>

theorem update_token_category_counterexample:
  "update_token
      \<lparr>tokens = [\<lparr>col_id = ''t1'', col_name = ''ui/brand'', col_category = ''color'',
          col_value = ''#3b82f6'', col_description = ''Brand'', col_aliases = [],
          col_deprecated = 0, col_deprecated_reason = [], col_tags = [],
          col_created_at = ''2026-11-03T10:00:00'', col_updated_at = ''2026-11-03T10:00:00'',
          col_version = 1\<rparr>], token_snapshots = []\<rparr>
      ''t1''
      \<lparr>p_id = None, p_name = None, p_category = Some ''border'', p_value = None,
       p_description = None, p_aliases = None, p_deprecated = None,
       p_deprecated_reason = None, p_tags = None, p_created_at = None,
       p_updated_at = None, p_version = None\<rparr>
      ''2026-11-04T09:00:00''
   = (\<lparr>tokens = [\<lparr>col_id = ''t1'', col_name = ''ui/brand'', col_category = ''border'',
          col_value = ''#3b82f6'', col_description = ''Brand'', col_aliases = [],
          col_deprecated = 0, col_deprecated_reason = [], col_tags = [],
          col_created_at = ''2026-11-03T10:00:00'', col_updated_at = ''2026-11-04T09:00:00'',
          col_version = 2\<rparr>], token_snapshots = []\<rparr>,
      Inr \<lparr>id_t = ''t1'', name = ''ui/brand'', category = ''border'', value_t = ''#3b82f6'',
        description = ''Brand'', aliases = [], deprecated = False, deprecated_reason = [],
        tags = [], created_at = ''2026-11-03T10:00:00'', updated_at = ''2026-11-04T09:00:00'',
        version = 2\<rparr>)"
  by code_simp

section \<open>Snapshots are immutable\<close>

text \<open>
  C5. After any sequence of add, update and delete operations a snapshot reference
  resolves to the same mapping as before the sequence; and a snapshot saved under a
  fresh id resolves, after any such sequence, to the mapping of the tokens the store
  held when it was saved.
\<close>

theorem snapshot_immutable:
  "load_snapshot_tokens (run_ops st ops) ref = load_snapshot_tokens st ref \<and>
   ((\<forall>s\<in>set (token_snapshots st). snap_id s \<noteq> sid \<and> snap_version s \<noteq> sid) \<longrightarrow>
      load_snapshot_tokens
        (run_ops (fst (save_snapshot st version_arg name_arg description_arg stamp now sid now2)) ops)
        sid
      = Inr (dict_of (list_tokens None True st)))"
proof (intro conjI impI)
  show "load_snapshot_tokens (run_ops st ops) ref = load_snapshot_tokens st ref"
    by (simp add: load_snapshot_tokens_def snapshots_run_ops)
next
  assume f: "\<forall>s\<in>set (token_snapshots st). snap_id s \<noteq> sid \<and> snap_version s \<noteq> sid"
  define x where "x = \<lparr>snap_id = sid, snap_version = version_arg, snap_name = name_arg,
     snap_description = description_arg,
     snap_data = export_json_snapshot st version_arg name_arg description_arg stamp now,
     snap_created_at = now2\<rparr>"
  define st1 where "st1 = fst (save_snapshot st version_arg name_arg description_arg stamp now sid now2)"
  have s1: "token_snapshots st1 = token_snapshots st @ [x]"
    by (simp add: st1_def save_snapshot_def Let_def x_def)
  have "find (\<lambda>r. snap_id r = sid \<or> snap_version r = sid) (token_snapshots st @ [x]) = Some x"
    using f by (rule load_snapshot_new) (simp add: x_def)
  then have "load_snapshot_tokens (run_ops st1 ops) sid = Inr (dict_of (ts_tokens (snap_data x)))"
    by (simp add: load_snapshot_tokens_def snapshots_run_ops s1)
  moreover have "ts_tokens (snap_data x) = list_tokens None True st"
    by (simp add: x_def export_json_snapshot_def Let_def)
  ultimately show "load_snapshot_tokens
        (run_ops (fst (save_snapshot st version_arg name_arg description_arg stamp now sid now2)) ops)
        sid
      = Inr (dict_of (list_tokens None True st))"
    by (simp add: st1_def)
qed

text \<open>
  The theorem at a store of one token: the snapshot is saved, then the token is updated
  and deleted and another token of the same name is added; the snapshot still resolves
  to the first token.
\<close>

theorem snapshot_immutable_witness:
  "load_snapshot_tokens
     (run_ops
        (fst (save_snapshot
           \<lparr>tokens = [\<lparr>col_id = ''t1'', col_name = ''color/brand'', col_category = ''color'',
              col_value = ''#3b82f6'', col_description = ''Brand'', col_aliases = [],
              col_deprecated = 0, col_deprecated_reason = [], col_tags = [],
              col_created_at = ''2026-11-03T10:00:00'', col_updated_at = ''2026-11-03T10:00:00'',
              col_version = 1\<rparr>], token_snapshots = []\<rparr>
           ''v1'' ''before'' [] ''20261103100500'' ''2026-11-03T10:05:00'' ''s1''
           ''2026-11-03T10:05:01''))
        [Update ''t1''
           \<lparr>p_id = None, p_name = None, p_category = None, p_value = Some ''#000000'',
            p_description = None, p_aliases = None, p_deprecated = None,
            p_deprecated_reason = None, p_tags = None, p_created_at = None,
            p_updated_at = None, p_version = None\<rparr> ''2026-11-04T09:00:00'',
         Delete ''color/brand'',
         Add \<lparr>id_t = ''t9'', name = ''color/brand'', category = ''color'', value_t = ''#ffffff'',
              description = [], aliases = [], deprecated = False, deprecated_reason = [],
              tags = [], created_at = [], updated_at = [], version = 1\<rparr>
             ''2026-11-05T09:00:00''])
     ''s1''
   = Inr [(''color/brand'',
           \<lparr>id_t = ''t1'', name = ''color/brand'', category = ''color'', value_t = ''#3b82f6'',
            description = ''Brand'', aliases = [], deprecated = False, deprecated_reason = [],
            tags = [], created_at = ''2026-11-03T10:00:00'',
            updated_at = ''2026-11-03T10:00:00'', version = 1\<rparr>)]"
proof -
  let ?st = "\<lparr>tokens = [\<lparr>col_id = ''t1'', col_name = ''color/brand'', col_category = ''color'',
              col_value = ''#3b82f6'', col_description = ''Brand'', col_aliases = [],
              col_deprecated = 0, col_deprecated_reason = [], col_tags = [],
              col_created_at = ''2026-11-03T10:00:00'', col_updated_at = ''2026-11-03T10:00:00'',
              col_version = 1\<rparr>], token_snapshots = []\<rparr>"
  have h: "\<forall>s\<in>set (token_snapshots ?st). snap_id s \<noteq> ''s1'' \<and> snap_version s \<noteq> ''s1''"
    by simp
  note eq = snapshot_immutable [THEN conjunct2, THEN mp, OF h]
  show ?thesis by (subst eq) code_simp
qed

section \<open>The diff\<close>

text \<open>
  C6. For dictionaries \<open>a\<close> and \<open>b\<close> and a name present in both, the name is among the
  changed entries exactly when value, category or deprecated differ, and its entry then
  carries these three fields of both sides; the unchanged counter is the number of
  entries of \<open>a\<close> whose name is in \<open>b\<close> with these three fields equal, whatever else
  differs.
\<close>

theorem diff_changed_iff:
  assumes "distinct (map fst a)" and "map_of a n = Some ta" and "map_of b n = Some tb"
  shows "(n \<in> fst ` set (changed (diff_maps ia ib a b)) \<longleftrightarrow>
            value_t ta \<noteq> value_t tb \<or> category ta \<noteq> category tb \<or> deprecated ta \<noteq> deprecated tb) \<and>
         (n \<in> fst ` set (changed (diff_maps ia ib a b)) \<longrightarrow>
            map_of (changed (diff_maps ia ib a b)) n =
              Some \<lparr>before_value = value_t ta, before_category = category ta,
                    before_deprecated = deprecated ta,
                    after_value = value_t tb, after_category = category tb,
                    after_deprecated = deprecated tb\<rparr>) \<and>
         summary_unchanged (diff_maps ia ib a b) =
            length (filter (\<lambda>(m, x). case map_of b m of None \<Rightarrow> False
               | Some y \<Rightarrow> value_t x = value_t y \<and> category x = category y \<and>
                           deprecated x = deprecated y) a)"
proof -
  obtain chg u where l: "diff_loop a b ([], 0) = (chg, u)" by (cases "diff_loop a b ([], 0)")
  have c: "changed (diff_maps ia ib a b) = chg" and s: "summary_unchanged (diff_maps ia ib a b) = u"
    by (simp_all add: diff_maps_def Let_def l)
  have m: "map_of chg n =
     (if value_t ta \<noteq> value_t tb \<or> category ta \<noteq> category tb \<or> deprecated ta \<noteq> deprecated tb
      then Some \<lparr>before_value = value_t ta, before_category = category ta,
                 before_deprecated = deprecated ta,
                 after_value = value_t tb, after_category = category tb,
                 after_deprecated = deprecated tb\<rparr>
      else None)"
    using diff_loop_changed [OF assms(1), of b "[]" 0 n] l assms(2,3) by simp
  have k: "n \<in> fst ` set chg \<longleftrightarrow> map_of chg n \<noteq> None"
    by (simp add: map_of_eq_None_iff)
  have "u = length (filter (\<lambda>(m, x). case map_of b m of None \<Rightarrow> False
               | Some y \<Rightarrow> value_t x = value_t y \<and> category x = category y \<and>
                           deprecated x = deprecated y) a)"
    using diff_loop_unchanged [of a b "[]" 0] l by simp
  then show ?thesis
    unfolding c s k m by simp
qed

text \<open>
  The theorem at a token whose value changes from \<open>#111\<close> to \<open>#999\<close>.
\<close>

theorem diff_changed_iff_witness:
  "''color/chg'' \<in> fst ` set (changed (diff_maps ''v1'' ''current''
      [(''color/chg'',
        \<lparr>id_t = ''t1'', name = ''color/chg'', category = ''color'', value_t = ''#111'',
         description = ''Old'', aliases = [], deprecated = False, deprecated_reason = [],
         tags = [], created_at = ''2026-11-03T10:00:00'', updated_at = ''2026-11-03T10:00:00'',
         version = 1\<rparr>)]
      [(''color/chg'',
        \<lparr>id_t = ''t1'', name = ''color/chg'', category = ''color'', value_t = ''#999'',
         description = ''Old'', aliases = [], deprecated = False, deprecated_reason = [],
         tags = [], created_at = ''2026-11-03T10:00:00'', updated_at = ''2026-11-04T09:00:00'',
         version = 2\<rparr>)])) \<and>
   map_of (changed (diff_maps ''v1'' ''current''
      [(''color/chg'',
        \<lparr>id_t = ''t1'', name = ''color/chg'', category = ''color'', value_t = ''#111'',
         description = ''Old'', aliases = [], deprecated = False, deprecated_reason = [],
         tags = [], created_at = ''2026-11-03T10:00:00'', updated_at = ''2026-11-03T10:00:00'',
         version = 1\<rparr>)]
      [(''color/chg'',
        \<lparr>id_t = ''t1'', name = ''color/chg'', category = ''color'', value_t = ''#999'',
         description = ''Old'', aliases = [], deprecated = False, deprecated_reason = [],
         tags = [], created_at = ''2026-11-03T10:00:00'', updated_at = ''2026-11-04T09:00:00'',
         version = 2\<rparr>)])) ''color/chg'' =
     Some \<lparr>before_value = ''#111'', before_category = ''color'', before_deprecated = False,
           after_value = ''#999'', after_category = ''color'', after_deprecated = False\<rparr>"
proof -
  let ?ta = "\<lparr>id_t = ''t1'', name = ''color/chg'', category = ''color'', value_t = ''#111'',
         description = ''Old'', aliases = [], deprecated = False, deprecated_reason = [],
         tags = [], created_at = ''2026-11-03T10:00:00'', updated_at = ''2026-11-03T10:00:00'',
         version = 1\<rparr>"
  let ?tb = "\<lparr>id_t = ''t1'', name = ''color/chg'', category = ''color'', value_t = ''#999'',
         description = ''Old'', aliases = [], deprecated = False, deprecated_reason = [],
         tags = [], created_at = ''2026-11-03T10:00:00'', updated_at = ''2026-11-04T09:00:00'',
         version = 2\<rparr>"
  have h1: "distinct (map fst [(''color/chg'', ?ta)])" by simp
  have h2: "map_of [(''color/chg'', ?ta)] ''color/chg'' = Some ?ta" by simp
  have h3: "map_of [(''color/chg'', ?tb)] ''color/chg'' = Some ?tb" by simp
  have d: "value_t ?ta \<noteq> value_t ?tb" by simp
  show ?thesis
    using diff_changed_iff [OF h1 h2 h3, of "''v1''" "''current''"] d
    by (simp only: Token.simps) blast
qed



section \<open>Bulk import\<close>

text \<open>
  C8 fails on the code. An entry whose color value is the text \<open>already exists\<close>
  fails validation in \<open>add_token\<close>; the message quotes the value, the importer looks
  for \<open>already exists\<close> in the message, and the entry is counted as skipped with no
  error message, although the store is empty.
\<close>

theorem import_json_misfiled_error:
  "add_token empty_store
     (entry_token ''color/brand''
        \<lparr>k_dollar_value = Some ''already exists'', k_value = None, k_dollar_type = Some ''color'',
         k_category = None, k_dollar_description = None, k_description = None, k_tags = None\<rparr>
        \<lparr>e_uuid = ''u1'', e_created = ''2026-11-03T10:00:00'', e_updated = ''2026-11-03T10:00:00'',
         e_now = ''2026-11-03T10:00:00''\<rparr>)
     ''2026-11-03T10:00:00''
   = (empty_store,
      Inl (ValueError (''Token validation failed: '' @ color_error ''already exists''))) \<and>
   import_json empty_store
     [(''color/brand'', Dict
        \<lparr>k_dollar_value = Some ''already exists'', k_value = None, k_dollar_type = Some ''color'',
         k_category = None, k_dollar_description = None, k_description = None, k_tags = None\<rparr>)]
     (\<lambda>i. \<lparr>e_uuid = ''u1'', e_created = ''2026-11-03T10:00:00'',
            e_updated = ''2026-11-03T10:00:00'', e_now = ''2026-11-03T10:00:00''\<rparr>)
   = (empty_store, Inr (0, 1, []))"
  by code_simp

end
